theory Spec2Isabelle
  imports Complex_Main
begin

section \<open>The smart-money copy-trading service\<close>

text \<open>
  A shallow embedding of \<^verbatim>\<open>SmartMoneyService\<close> from
  \<^verbatim>\<open>src/services/smart-money-service.ts\<close>: the cohort cache, the shared trade
  subscription with its listener set, and the auto-copy handler.

  Conventions. A TypeScript \<^verbatim>\<open>number\<close> that carries an amount, a price or a time is a
  \<open>real\<close>: the model has the comparisons and the arithmetic of the source, without the
  rounding and the special values (NaN, infinities) of IEEE doubles. Counters that the
  source only ever increments from zero are \<open>nat\<close>. An optional field is an \<open>option\<close>.
  An object reference (a listener function, the stats object) is a \<open>nat\<close>. Whatever the
  source reads from outside (the clock, the leaderboard provider, the trading backend, the
  behaviour of a callback) is a parameter of the function that reads it.
\<close>

subsection \<open>Strings\<close>

text \<open>\<^verbatim>\<open>String.prototype.toLowerCase\<close> on the ASCII range (addresses are hex strings).\<close>

definition toLowerChar :: "char \<Rightarrow> char" where
  "toLowerChar c =
     (case map_of (zip ''ABCDEFGHIJKLMNOPQRSTUVWXYZ'' ''abcdefghijklmnopqrstuvwxyz'') c of
        None \<Rightarrow> c
      | Some l \<Rightarrow> l)"

definition toLowerCase :: "string \<Rightarrow> string" where
  "toLowerCase s = map toLowerChar s"

subsection \<open>Data model\<close>

record SmartMoneyWallet =
  address :: string
  name :: "string option"
  pnl :: real
  volume :: real
  score :: int
  rank :: nat

text \<open>One entry of the page that \<^verbatim>\<open>walletService.getLeaderboard\<close> returns (the fields
  the service reads).\<close>

record LeaderboardEntry =
  entry_address :: string
  userName :: "string option"
  entry_pnl :: real
  entry_volume :: real
  entry_rank :: "nat option"

datatype Side = BUY | SELL

datatype OrderType = FOK | FAK

record SmartMoneyTrade =
  traderAddress :: string
  traderName :: "string option"
  conditionId :: "string option"
  marketSlug :: "string option"
  side :: Side
  tsize :: real
  price :: real
  tokenId :: "string option"
  outcome :: "string option"
  txHash :: "string option"
  timestamp :: real
  isSmartMoney :: bool
  smartMoneyInfo :: "SmartMoneyWallet option"

text \<open>The raw stream event (\<^verbatim>\<open>ActivityTrade\<close>), with the fields the service reads.\<close>

record Trader =
  trader_address :: "string option"
  trader_name :: "string option"

record ActivityTrade =
  trader :: "Trader option"
  a_conditionId :: "string option"
  a_marketSlug :: "string option"
  a_side :: Side
  a_size :: real
  a_price :: real
  asset :: "string option"
  a_outcome :: "string option"
  transactionHash :: "string option"
  a_timestamp :: real

text \<open>The option set of \<^verbatim>\<open>subscribeSmartMoneyTrades\<close>.\<close>

record SubscribeOptions =
  filterAddresses :: "string list option"
  minSize :: "real option"
  smartMoneyOnly :: "bool option"

text \<open>
  A listener is a function object; the service only compares listeners by identity
  (\<^verbatim>\<open>Set.add\<close>, \<^verbatim>\<open>Set.delete\<close>) and calls them. \<open>UserFn n\<close> is a function the caller
  passed in, \<open>AutoCopyFn a\<close> is the closure that \<^verbatim>\<open>startAutoCopyTrading\<close> creates around
  the stats object at address \<open>a\<close>.
\<close>

datatype Handler = UserFn nat | AutoCopyFn nat

text \<open>
  The service object. \<open>smartMoneyCache\<close> is a JavaScript \<^verbatim>\<open>Map\<close>, kept as an
  association list in insertion order, which is the order \<^verbatim>\<open>Map.values()\<close> iterates
  in; \<open>tradeHandlers\<close> is a \<^verbatim>\<open>Set\<close> in insertion order. \<open>activeSubscription\<close> holds
  what the upstream \<^verbatim>\<open>onTrade\<close> closure captured: the option set of the call that
  created the subscription. The last three fields are not in the source: they count the
  calls the service makes to its collaborators.
\<close>

record Service =
  minPnl :: real
  cacheTtl :: real
  smartMoneyCache :: "(string \<times> SmartMoneyWallet) list"
  smartMoneySet :: "string set"
  cacheTimestamp :: real
  activeSubscription :: "SubscribeOptions option"
  tradeHandlers :: "Handler list"
  leaderboardCalls :: nat
  upstreamSubscribes :: nat
  upstreamUnsubscribes :: nat

text \<open>The constructor, with the defaults of \<^verbatim>\<open>config.minPnl ?? 1000\<close> and
  \<^verbatim>\<open>config.cacheTtl ?? 300000\<close>.\<close>

definition newService :: "real option \<Rightarrow> real option \<Rightarrow> Service" where
  "newService cfgMinPnl cfgCacheTtl =
     \<lparr> minPnl = (case cfgMinPnl of None \<Rightarrow> 1000 | Some v \<Rightarrow> v),
       cacheTtl = (case cfgCacheTtl of None \<Rightarrow> 300000 | Some v \<Rightarrow> v),
       smartMoneyCache = [],
       smartMoneySet = {},
       cacheTimestamp = 0,
       activeSubscription = None,
       tradeHandlers = [],
       leaderboardCalls = 0,
       upstreamSubscribes = 0,
       upstreamUnsubscribes = 0 \<rparr>"

subsection \<open>The cohort cache\<close>

text \<open>\<^verbatim>\<open>Map.set\<close>: an existing key keeps its place and takes the new value, a new key
  goes to the end.\<close>

fun map_set :: "string \<Rightarrow> 'v \<Rightarrow> (string \<times> 'v) list \<Rightarrow> (string \<times> 'v) list" where
  "map_set k v [] = [(k, v)]"
| "map_set k v ((k', v') # kvs) =
     (if k' = k then (k, v) # kvs else (k', v') # map_set k v kvs)"

definition map_values :: "(string \<times> 'v) list \<Rightarrow> 'v list" where
  "map_values kvs = map snd kvs"

definition isCacheValid :: "real \<Rightarrow> Service \<Rightarrow> bool" where
  "isCacheValid now s \<longleftrightarrow>
     now - cacheTimestamp s < cacheTtl s \<and> length (smartMoneyCache s) > 0"

text \<open>\<^verbatim>\<open>Math.round\<close> rounds half up.\<close>

definition math_round :: "real \<Rightarrow> int" where
  "math_round x = \<lfloor>x + 1 / 2\<rfloor>"

definition walletOf :: "nat \<Rightarrow> LeaderboardEntry \<Rightarrow> SmartMoneyWallet" where
  "walletOf i t =
     \<lparr> address = toLowerCase (entry_address t),
       name = userName t,
       pnl = entry_pnl t,
       volume = entry_volume t,
       score = min 100 (math_round ((entry_pnl t / 100000) * 50 + (entry_volume t / 1000000) * 50)),
       rank = (case entry_rank t of None \<Rightarrow> i + 1 | Some r \<Rightarrow> r) \<rparr>"

text \<open>
  The loop of \<^verbatim>\<open>getSmartMoneyList\<close> over \<^verbatim>\<open>entries\<close>, from index \<open>i\<close>: the list
  built so far, and the service whose map and set it writes into.
\<close>

fun refreshLoop ::
  "nat \<Rightarrow> LeaderboardEntry list \<Rightarrow> SmartMoneyWallet list \<Rightarrow> Service
     \<Rightarrow> SmartMoneyWallet list \<times> Service" where
  "refreshLoop i [] smartMoneyList s = (smartMoneyList, s)"
| "refreshLoop i (t # ts) smartMoneyList s =
     (if entry_pnl t < minPnl s then refreshLoop (Suc i) ts smartMoneyList s
      else
        let wallet = walletOf i t
        in refreshLoop (Suc i) ts (smartMoneyList @ [wallet])
             (s\<lparr> smartMoneyCache := map_set (address wallet) wallet (smartMoneyCache s),
                smartMoneySet := insert (address wallet) (smartMoneySet s) \<rparr>))"

datatype error = ProviderError | NoTargetAddresses

text \<open>
  \<^verbatim>\<open>getSmartMoneyList(limit)\<close>. \<open>provider limit\<close> is what
  \<^verbatim>\<open>walletService.getLeaderboard(0, limit)\<close> resolves to (\<open>None\<close>: it rejects),
  \<open>now\<close> the clock at the call and \<open>now'\<close> the clock when the response is processed.
  This is the call as a caller that awaits it sees it, request and answer in one step;
  the part after the \<^verbatim>\<open>await\<close> runs without interruption. For the one caller that
  does not await it, see \<open>finishRefresh\<close> and \<open>subscribeSmartMoneyTrades\<close>.
\<close>

definition getSmartMoneyList ::
  "(nat \<Rightarrow> LeaderboardEntry list option) \<Rightarrow> real \<Rightarrow> real \<Rightarrow> nat \<Rightarrow> Service
     \<Rightarrow> (error + SmartMoneyWallet list) \<times> Service" where
  "getSmartMoneyList provider now now' limit s =
     (if isCacheValid now s then (Inr (map_values (smartMoneyCache s)), s)
      else
        let s1 = s\<lparr> leaderboardCalls := leaderboardCalls s + 1 \<rparr>
        in case provider limit of
             None \<Rightarrow> (Inl ProviderError, s1)
           | Some entries \<Rightarrow>
               let (smartMoneyList, s2) = refreshLoop 0 entries [] s1
               in (Inr smartMoneyList, s2\<lparr> cacheTimestamp := now' \<rparr>))"

text \<open>
  The part of \<^verbatim>\<open>getSmartMoneyList\<close> after the \<^verbatim>\<open>await\<close>, on its own: what runs when
  the provider has answered with \<open>entries\<close>, at clock \<open>now'\<close>. A caller that does not
  await the call goes on before this runs.
\<close>

definition finishRefresh ::
  "LeaderboardEntry list \<Rightarrow> real \<Rightarrow> Service \<Rightarrow> SmartMoneyWallet list \<times> Service" where
  "finishRefresh entries now' s =
     (let (smartMoneyList, s2) = refreshLoop 0 entries [] s
      in (smartMoneyList, s2\<lparr> cacheTimestamp := now' \<rparr>))"

text \<open>\<^verbatim>\<open>isSmartMoney(address)\<close>; the refresh uses the default limit 100, and a
  rejected refresh rejects the call.\<close>

definition isSmartMoneyAddr ::
  "(nat \<Rightarrow> LeaderboardEntry list option) \<Rightarrow> real \<Rightarrow> real \<Rightarrow> string \<Rightarrow> Service
     \<Rightarrow> (error + bool) \<times> Service" where
  "isSmartMoneyAddr provider now now' addr s =
     (let normalized = toLowerCase addr
      in if isCacheValid now s then (Inr (normalized \<in> smartMoneySet s), s)
         else case getSmartMoneyList provider now now' 100 s of
                (Inl e, s') \<Rightarrow> (Inl e, s')
              | (Inr _, s') \<Rightarrow> (Inr (normalized \<in> smartMoneySet s'), s'))"

subsection \<open>The shared trade subscription\<close>

text \<open>\<^verbatim>\<open>Set.add\<close> and \<^verbatim>\<open>Set.delete\<close> on a set kept in insertion order.\<close>

definition set_add :: "'a \<Rightarrow> 'a list \<Rightarrow> 'a list" where
  "set_add x xs = (if x \<in> set xs then xs else xs @ [x])"

definition set_delete :: "'a \<Rightarrow> 'a list \<Rightarrow> 'a list" where
  "set_delete x xs = removeAll x xs"

text \<open>
  The first half of \<^verbatim>\<open>handleActivityTrade\<close>: the filters, then the normalized trade.
  \<open>None\<close> is an early \<^verbatim>\<open>return\<close>. The source tests \<^verbatim>\<open>!rawAddress\<close> (a missing
  trader, a missing address and the empty string all drop the event),
  \<^verbatim>\<open>options.minSize && ...\<close> (a \<^verbatim>\<open>minSize\<close> of 0 is as good as none) and
  \<^verbatim>\<open>options.smartMoneyOnly && ...\<close>.
\<close>

definition normalizeActivityTrade ::
  "ActivityTrade \<Rightarrow> SubscribeOptions \<Rightarrow> Service \<Rightarrow> SmartMoneyTrade option" where
  "normalizeActivityTrade trade options s =
     (case (case trader trade of None \<Rightarrow> None | Some tr \<Rightarrow> trader_address tr) of
        None \<Rightarrow> None
      | Some rawAddress \<Rightarrow>
          if rawAddress = [] then None
          else
            let traderAddress = toLowerCase rawAddress
            in if (case filterAddresses options of
                     None \<Rightarrow> False
                   | Some fa \<Rightarrow> length fa > 0 \<and> traderAddress \<notin> set (map toLowerCase fa))
               then None
               else if (case minSize options of
                          None \<Rightarrow> False
                        | Some m \<Rightarrow> m \<noteq> 0 \<and> a_size trade < m)
               then None
               else
                 let isSM = traderAddress \<in> smartMoneySet s
                 in if smartMoneyOnly options = Some True \<and> \<not> isSM then None
                    else Some
                      \<lparr> traderAddress = traderAddress,
                        traderName = (case trader trade of None \<Rightarrow> None | Some tr \<Rightarrow> trader_name tr),
                        conditionId = a_conditionId trade,
                        marketSlug = a_marketSlug trade,
                        side = a_side trade,
                        tsize = a_size trade,
                        price = a_price trade,
                        tokenId = asset trade,
                        outcome = a_outcome trade,
                        txHash = transactionHash trade,
                        timestamp = a_timestamp trade,
                        isSmartMoney = isSM,
                        smartMoneyInfo = map_of (smartMoneyCache s) traderAddress \<rparr>)"

text \<open>
  Calling a listener either returns or throws. What a listener does is outside the
  service, so it is a parameter \<open>call\<close>; a listener is taken not to call back into the
  service while the loop runs. The loop records what it does: every call, and every
  exception it catches and logs.
\<close>

datatype Outcome = Returned | Threw

datatype Log = Delivered Handler SmartMoneyTrade | HandlerError Handler

fun dispatchLoop ::
  "(Handler \<Rightarrow> SmartMoneyTrade \<Rightarrow> Outcome) \<Rightarrow> Handler list \<Rightarrow> SmartMoneyTrade \<Rightarrow> Log list" where
  "dispatchLoop call [] t = []"
| "dispatchLoop call (handler # hs) t =
     (case call handler t of
        Returned \<Rightarrow> Delivered handler t # dispatchLoop call hs t
      | Threw \<Rightarrow> Delivered handler t # HandlerError handler # dispatchLoop call hs t)"

definition handleActivityTrade ::
  "(Handler \<Rightarrow> SmartMoneyTrade \<Rightarrow> Outcome) \<Rightarrow> ActivityTrade \<Rightarrow> SubscribeOptions \<Rightarrow> Service
     \<Rightarrow> Log list" where
  "handleActivityTrade call trade options s =
     (case normalizeActivityTrade trade options s of
        None \<Rightarrow> []
      | Some smartMoneyTrade \<Rightarrow> dispatchLoop call (tradeHandlers s) smartMoneyTrade)"

text \<open>
  An event of the upstream stream: the \<^verbatim>\<open>onTrade\<close> closure given to
  \<^verbatim>\<open>subscribeAllActivity\<close> runs \<^verbatim>\<open>handleActivityTrade\<close> with the \<^verbatim>\<open>options\<close> it
  captured. With no subscription attached nothing is delivered.
\<close>

definition onUpstreamTrade ::
  "(Handler \<Rightarrow> SmartMoneyTrade \<Rightarrow> Outcome) \<Rightarrow> ActivityTrade \<Rightarrow> Service \<Rightarrow> Log list" where
  "onUpstreamTrade call trade s =
     (case activeSubscription s of
        None \<Rightarrow> []
      | Some options \<Rightarrow> handleActivityTrade call trade options s)"

text \<open>
  \<^verbatim>\<open>subscribeSmartMoneyTrades(onTrade, options)\<close>. The call
  \<^verbatim>\<open>this.getSmartMoneyList().catch(() => {})\<close> is not awaited: it runs up to its
  \<^verbatim>\<open>await\<close>, that is, it tests the cache and, when the cache is not valid, sends the
  request to the provider. The cache is written only when the provider has answered,
  after this function returned: that later event is \<open>finishRefresh\<close> (\<open>RefreshDone\<close>
  below), and until then every stream event sees the old cache. A rejected request
  changes nothing. The returned \<^verbatim>\<open>unsubscribe\<close> closure is \<open>unsubscribe onTrade\<close>; the
  returned id is a string built from the clock and is not modelled.
\<close>

definition subscribeSmartMoneyTrades ::
  "real \<Rightarrow> Handler \<Rightarrow> SubscribeOptions \<Rightarrow> Service \<Rightarrow> Service" where
  "subscribeSmartMoneyTrades now onTrade options s =
     (let s1 = s\<lparr> tradeHandlers := set_add onTrade (tradeHandlers s) \<rparr>;
          s2 = (if isCacheValid now s1 then s1
                else s1\<lparr> leaderboardCalls := leaderboardCalls s1 + 1 \<rparr>)
      in if activeSubscription s2 = None
         then s2\<lparr> activeSubscription := Some options,
                  upstreamSubscribes := upstreamSubscribes s2 + 1 \<rparr>
         else s2)"

definition unsubscribe :: "Handler \<Rightarrow> Service \<Rightarrow> Service" where
  "unsubscribe onTrade s =
     (let s1 = s\<lparr> tradeHandlers := set_delete onTrade (tradeHandlers s) \<rparr>
      in if length (tradeHandlers s1) = 0 \<and> activeSubscription s1 \<noteq> None
         then s1\<lparr> upstreamUnsubscribes := upstreamUnsubscribes s1 + 1,
                  activeSubscription := None \<rparr>
         else s1)"

definition disconnect :: "Service \<Rightarrow> Service" where
  "disconnect s =
     (let s1 = (if activeSubscription s \<noteq> None
                then s\<lparr> upstreamUnsubscribes := upstreamUnsubscribes s + 1,
                        activeSubscription := None \<rparr>
                else s)
      in s1\<lparr> tradeHandlers := [], smartMoneyCache := [], smartMoneySet := {} \<rparr>)"

text \<open>
  What can happen to the service, and a run of it: the calls a client can make, and
  \<open>RefreshDone\<close>, the provider's answer to a request that was not awaited.
\<close>

datatype Op =
    Subscribe real Handler SubscribeOptions
  | Unsubscribe Handler
  | Refresh "nat \<Rightarrow> LeaderboardEntry list option" real real nat
  | RefreshDone "LeaderboardEntry list" real
  | Disconnect

fun applyOp :: "Op \<Rightarrow> Service \<Rightarrow> Service" where
  "applyOp (Subscribe now h options) s = subscribeSmartMoneyTrades now h options s"
| "applyOp (Unsubscribe h) s = unsubscribe h s"
| "applyOp (Refresh provider now now' limit) s = snd (getSmartMoneyList provider now now' limit s)"
| "applyOp (RefreshDone entries now') s = snd (finishRefresh entries now' s)"
| "applyOp Disconnect s = disconnect s"

fun runOps :: "Op list \<Rightarrow> Service \<Rightarrow> Service" where
  "runOps [] s = s"
| "runOps (op # ops) s = runOps ops (applyOp op s)"

fun subscribes :: "Handler \<Rightarrow> Op \<Rightarrow> bool" where
  "subscribes h (Subscribe _ h' _) = (h' = h)"
| "subscribes h _ = False"

subsection \<open>Auto copy trading: configuration and statistics\<close>

record AutoCopyTradingStats =
  startTime :: real
  tradesDetected :: nat
  tradesExecuted :: nat
  tradesSkipped :: nat
  tradesFailed :: nat
  totalUsdcSpent :: real

text \<open>\<^verbatim>\<open>OrderResult\<close>. The dry-run id is \<^verbatim>\<open>dry_run_\<close> followed by the clock; the
  suffix is left out, nothing in the service reads the id.\<close>

record OrderResult =
  success :: bool
  orderId :: "string option"

text \<open>The argument of \<^verbatim>\<open>tradingService.createMarketOrder\<close>.\<close>

record MarketOrder =
  order_tokenId :: string
  order_side :: Side
  amount :: real
  order_price :: real
  orderType :: OrderType

text \<open>
  \<^verbatim>\<open>AutoCopyTradingOptions\<close>. A callback is given by what calling it does: \<open>onTrade\<close>
  returns or throws. \<open>onError\<close> is called in the \<^verbatim>\<open>catch\<close> block only, after the last
  counter update, and nothing observes the promise of the handler, so its behaviour is
  not a field.
\<close>

record AutoCopyTradingOptions =
  opt_targetAddresses :: "string list option"
  opt_topN :: "nat option"
  opt_sizeScale :: "real option"
  opt_maxSizePerTrade :: "real option"
  opt_maxSlippage :: "real option"
  opt_orderType :: "OrderType option"
  opt_delay :: "real option"
  opt_minTradeSize :: "real option"
  opt_sideFilter :: "Side option"
  opt_dryRun :: "bool option"
  opt_onTrade :: "(SmartMoneyTrade \<Rightarrow> OrderResult \<Rightarrow> Outcome) option"

text \<open>The constants the handler closure captures, after the \<^verbatim>\<open>??\<close> defaults.\<close>

record CopyConfig =
  targetAddresses :: "string list"
  sizeScale :: real
  maxSizePerTrade :: real
  maxSlippage :: real
  cfg_orderType :: OrderType
  minTradeSize :: real
  sideFilter :: "Side option"
  delay :: real
  dryRun :: bool
  onTrade :: "(SmartMoneyTrade \<Rightarrow> OrderResult \<Rightarrow> Outcome) option"

definition orDefault :: "'a option \<Rightarrow> 'a \<Rightarrow> 'a" where
  "orDefault v d = (case v of None \<Rightarrow> d | Some x \<Rightarrow> x)"

definition resolveConfig :: "string list \<Rightarrow> AutoCopyTradingOptions \<Rightarrow> CopyConfig" where
  "resolveConfig targets options =
     \<lparr> targetAddresses = targets,
       sizeScale = orDefault (opt_sizeScale options) (1 / 10),
       maxSizePerTrade = orDefault (opt_maxSizePerTrade options) 50,
       maxSlippage = orDefault (opt_maxSlippage options) (3 / 100),
       cfg_orderType = orDefault (opt_orderType options) FOK,
       minTradeSize = orDefault (opt_minTradeSize options) 10,
       sideFilter = opt_sideFilter options,
       delay = orDefault (opt_delay options) 0,
       dryRun = orDefault (opt_dryRun options) False,
       onTrade = opt_onTrade options \<rparr>"

subsection \<open>Auto copy trading: the handler\<close>

text \<open>
  The handler is an \<^verbatim>\<open>async\<close> function with two suspension points: the optional
  delay and the backend call. Between them it runs without interruption, so one
  invocation is up to three atomic pieces, and several invocations can be suspended at
  once. A suspended invocation keeps what it needs to go on.
\<close>

datatype Pending =
    AwaitDelay SmartMoneyTrade real real
  | AwaitOrder SmartMoneyTrade real

text \<open>
  What the pieces read and write: the stats object, the orders submitted to the backend
  so far (not in the source: it records the calls of \<^verbatim>\<open>createMarketOrder\<close>), and the
  suspended invocations.
\<close>

record Session =
  stats :: AutoCopyTradingStats
  orders :: "MarketOrder list"
  pending :: "Pending list"

definition skipped :: "Session \<Rightarrow> Session" where
  "skipped sess = sess\<lparr> stats := (stats sess)\<lparr> tradesSkipped := tradesSkipped (stats sess) + 1 \<rparr> \<rparr>"

definition failed :: "Session \<Rightarrow> Session" where
  "failed sess = sess\<lparr> stats := (stats sess)\<lparr> tradesFailed := tradesFailed (stats sess) + 1 \<rparr> \<rparr>"

text \<open>
  "Calculate size" and "Enforce max size": the pair \<^verbatim>\<open>(copySize, copyValue)\<close>. For a
  price of 0 the source's quotient is an infinity and HOL's is 0; \<^verbatim>\<open>copySize\<close> is only
  printed, never submitted.
\<close>

definition sizing :: "CopyConfig \<Rightarrow> SmartMoneyTrade \<Rightarrow> real \<times> real" where
  "sizing cfg trade =
     (let copySize = tsize trade * sizeScale cfg;
          copyValue = copySize * price trade
      in if copyValue > maxSizePerTrade cfg
         then (maxSizePerTrade cfg / price trade, maxSizePerTrade cfg)
         else (copySize, copyValue))"

definition MIN_ORDER_SIZE :: real where
  "MIN_ORDER_SIZE = 1"

definition slippagePrice :: "CopyConfig \<Rightarrow> SmartMoneyTrade \<Rightarrow> real" where
  "slippagePrice cfg trade =
     (if side trade = BUY then price trade * (1 + maxSlippage cfg)
      else price trade * (1 - maxSlippage cfg))"

text \<open>
  From \<^verbatim>\<open>if (result.success)\<close> to the end of the \<^verbatim>\<open>try\<close> block, with the
  \<^verbatim>\<open>catch\<close> that an exception of \<^verbatim>\<open>options.onTrade\<close> lands in.
\<close>

definition settle :: "CopyConfig \<Rightarrow> SmartMoneyTrade \<Rightarrow> real \<Rightarrow> OrderResult \<Rightarrow> Session \<Rightarrow> Session" where
  "settle cfg trade usdcAmount result sess =
     (let sess1 =
            (if success result
             then sess\<lparr> stats := (stats sess)
                    \<lparr> tradesExecuted := tradesExecuted (stats sess) + 1,
                      totalUsdcSpent := totalUsdcSpent (stats sess) + usdcAmount \<rparr> \<rparr>
             else failed sess)
      in case onTrade cfg of
           None \<Rightarrow> sess1
         | Some callback \<Rightarrow>
             (case callback trade result of
                Returned \<Rightarrow> sess1
              | Threw \<Rightarrow> failed sess1))"

text \<open>
  From the token check to the backend call. In a dry run the result is made up on the
  spot and the handler goes on without suspending; otherwise the order is submitted and
  the invocation waits for the backend.
\<close>

definition execute :: "CopyConfig \<Rightarrow> SmartMoneyTrade \<Rightarrow> real \<Rightarrow> real \<Rightarrow> Session \<Rightarrow> Session" where
  "execute cfg trade copySize copyValue sess =
     (case tokenId trade of
        None \<Rightarrow> skipped sess
      | Some tok \<Rightarrow>
          if tok = [] then skipped sess
          else
            let usdcAmount = copyValue
            in if dryRun cfg
               then settle cfg trade usdcAmount \<lparr> success = True, orderId = Some ''dry_run_'' \<rparr> sess
               else sess\<lparr> orders := orders sess @
                            [\<lparr> order_tokenId = tok,
                               order_side = side trade,
                               amount = usdcAmount,
                               order_price = slippagePrice cfg trade,
                               orderType = cfg_orderType cfg \<rparr>],
                          pending := pending sess @ [AwaitOrder trade usdcAmount] \<rparr>)"

text \<open>The handler from its first line to the delay.\<close>

definition deliver :: "CopyConfig \<Rightarrow> SmartMoneyTrade \<Rightarrow> Session \<Rightarrow> Session" where
  "deliver cfg trade sess =
     (let sess1 = sess\<lparr> stats := (stats sess)\<lparr> tradesDetected := tradesDetected (stats sess) + 1 \<rparr> \<rparr>
      in if toLowerCase (traderAddress trade) \<notin> set (targetAddresses cfg) then sess1
         else
           let tradeValue = tsize trade * price trade
           in if tradeValue < minTradeSize cfg then skipped sess1
              else if sideFilter cfg \<noteq> None \<and> Some (side trade) \<noteq> sideFilter cfg then skipped sess1
              else
                let (copySize, copyValue) = sizing cfg trade
                in if copyValue < MIN_ORDER_SIZE then skipped sess1
                   else if delay cfg > 0
                   then sess1\<lparr> pending := pending sess1 @ [AwaitDelay trade copySize copyValue] \<rparr>
                   else execute cfg trade copySize copyValue sess1)"

text \<open>
  What the backend call comes to: the promise is fulfilled with a result, or it is
  rejected (an exception thrown by the call itself lands in the same \<^verbatim>\<open>catch\<close>).
\<close>

datatype Settlement = Fulfilled OrderResult | Rejected

text \<open>
  The events of a session: the stream delivers a trade to the handler, the delay of the
  \<open>i\<close>-th suspended invocation elapses, the backend call of the \<open>i\<close>-th suspended
  invocation settles. Any order of them is a possible run; an event that names no
  suspended invocation of its kind does nothing.
\<close>

datatype Action = Deliver SmartMoneyTrade | DelayElapsed nat | OrderSettled nat Settlement

definition dropPending :: "nat \<Rightarrow> Session \<Rightarrow> Session" where
  "dropPending i sess = sess\<lparr> pending := take i (pending sess) @ drop (Suc i) (pending sess) \<rparr>"

definition step :: "CopyConfig \<Rightarrow> Action \<Rightarrow> Session \<Rightarrow> Session" where
  "step cfg a sess =
     (case a of
        Deliver trade \<Rightarrow> deliver cfg trade sess
      | DelayElapsed i \<Rightarrow>
          if i < length (pending sess)
          then (case pending sess ! i of
                  AwaitDelay trade copySize copyValue \<Rightarrow>
                    execute cfg trade copySize copyValue (dropPending i sess)
                | AwaitOrder _ _ \<Rightarrow> sess)
          else sess
      | OrderSettled i settlement \<Rightarrow>
          if i < length (pending sess)
          then (case pending sess ! i of
                  AwaitDelay _ _ _ \<Rightarrow> sess
                | AwaitOrder trade usdcAmount \<Rightarrow>
                    (case settlement of
                       Fulfilled result \<Rightarrow> settle cfg trade usdcAmount result (dropPending i sess)
                     | Rejected \<Rightarrow> failed (dropPending i sess)))
          else sess)"

fun run :: "CopyConfig \<Rightarrow> Action list \<Rightarrow> Session \<Rightarrow> Session" where
  "run cfg [] sess = sess"
| "run cfg (a # as) sess = run cfg as (step cfg a sess)"

definition newStats :: "real \<Rightarrow> AutoCopyTradingStats" where
  "newStats t =
     \<lparr> startTime = t, tradesDetected = 0, tradesExecuted = 0, tradesSkipped = 0,
       tradesFailed = 0, totalUsdcSpent = 0 \<rparr>"

definition newSession :: "real \<Rightarrow> Session" where
  "newSession t = \<lparr> stats = newStats t, orders = [], pending = [] \<rparr>"

subsection \<open>Auto copy trading: starting a session, and the objects it hands out\<close>

text \<open>
  The stats object is shared by reference between the handler closure, the \<^verbatim>\<open>stats\<close>
  field of the returned subscription and the \<^verbatim>\<open>getStats\<close> closure, so objects live in
  a store: \<open>heap\<close> maps an address to the object there, \<open>nextRef\<close> is the next free
  address. \<open>backendOrders\<close> and \<open>suspended\<close> are the other two parts of the session.
\<close>

record World =
  heap :: "nat \<Rightarrow> AutoCopyTradingStats option"
  nextRef :: nat
  backendOrders :: "MarketOrder list"
  suspended :: "Pending list"

text \<open>
  The object \<^verbatim>\<open>startAutoCopyTrading\<close> returns. \<open>sub_stats\<close> is the \<^verbatim>\<open>stats\<close> field, a
  reference. The two closures are given by what they captured: \<^verbatim>\<open>stop\<close> calls the
  \<^verbatim>\<open>unsubscribe\<close> of the listener \<open>stop_onTrade\<close>, \<^verbatim>\<open>getStats\<close> copies the object at
  \<open>getStats_stats\<close>.
\<close>

record AutoCopyTradingSubscription =
  sub_targetAddresses :: "string list"
  sub_startTime :: real
  isActive :: bool
  sub_stats :: nat
  stop_onTrade :: Handler
  getStats_stats :: nat

text \<open>\<^verbatim>\<open>[...new Set(xs)]\<close>: the first occurrence of each element, in order.\<close>

definition uniq :: "'a list \<Rightarrow> 'a list" where
  "uniq xs = foldl (\<lambda>acc x. set_add x acc) [] xs"

text \<open>
  \<^verbatim>\<open>startAutoCopyTrading(options)\<close>. \<open>now\<close> is the clock at the call, \<open>now'\<close> after
  the leaderboard answered. It fails when the leaderboard call is rejected or no target address is left;
  the service is returned in both cases, since the cache may have been refreshed. On
  success it returns the subscription, the constants of the handler closure, the service
  and the store.
\<close>

definition startAutoCopyTrading ::
  "(nat \<Rightarrow> LeaderboardEntry list option) \<Rightarrow> real \<Rightarrow> real \<Rightarrow> AutoCopyTradingOptions
     \<Rightarrow> Service \<Rightarrow> World
     \<Rightarrow> (error \<times> Service) + (AutoCopyTradingSubscription \<times> CopyConfig \<times> Service \<times> World)" where
  "startAutoCopyTrading provider now now' options s w =
     (let startTime = now;
          explicit = (case opt_targetAddresses options of
                        None \<Rightarrow> []
                      | Some as \<Rightarrow> if length as > 0 then map toLowerCase as else []);
          (listed, s1) =
            (case opt_topN options of
               None \<Rightarrow> (Inr explicit, s)
             | Some n \<Rightarrow>
                 if n > 0
                 then (case getSmartMoneyList provider now now' n s of
                         (Inl e, s') \<Rightarrow> (Inl e, s')
                       | (Inr smartMoneyList, s') \<Rightarrow>
                           (Inr (uniq (explicit @ map address smartMoneyList)), s'))
                 else (Inr explicit, s))
      in case listed of
           Inl e \<Rightarrow> Inl (e, s1)
         | Inr targets \<Rightarrow>
             if length targets = 0 then Inl (NoTargetAddresses, s1)
             else
               let a = nextRef w;
                   w1 = w\<lparr> heap := (heap w)(a := Some (newStats startTime)), nextRef := Suc a \<rparr>;
                   cfg = resolveConfig targets options;
                   s2 = subscribeSmartMoneyTrades now' (AutoCopyFn a)
                          \<lparr> filterAddresses = Some targets,
                            minSize = Some (minTradeSize cfg),
                            smartMoneyOnly = None \<rparr> s1
               in Inr (\<lparr> sub_targetAddresses = targets,
                         sub_startTime = startTime,
                         isActive = True,
                         sub_stats = a,
                         stop_onTrade = AutoCopyFn a,
                         getStats_stats = a \<rparr>, cfg, s2, w1))"

text \<open>\<^verbatim>\<open>stop: () => subscription.unsubscribe()\<close>.\<close>

definition stop :: "AutoCopyTradingSubscription \<Rightarrow> Service \<Rightarrow> Service" where
  "stop sub s = unsubscribe (stop_onTrade sub) s"

text \<open>\<^verbatim>\<open>getStats: () => ({ ...stats })\<close>: a new object with the fields of the captured
  one; the result is its address.\<close>

definition getStats :: "AutoCopyTradingSubscription \<Rightarrow> World \<Rightarrow> nat \<times> World" where
  "getStats sub w =
     (nextRef w,
      w\<lparr> heap := (heap w)(nextRef w := heap w (getStats_stats sub)), nextRef := Suc (nextRef w) \<rparr>)"

text \<open>
  One piece of the handler closure \<open>AutoCopyFn a\<close>, run on the store: the handler reads
  and writes the stats object at the address it captured.
\<close>

definition handlerStep :: "CopyConfig \<Rightarrow> Handler \<Rightarrow> Action \<Rightarrow> World \<Rightarrow> World" where
  "handlerStep cfg h act w =
     (case h of
        UserFn _ \<Rightarrow> w
      | AutoCopyFn a \<Rightarrow>
          (case heap w a of
             None \<Rightarrow> w
           | Some st \<Rightarrow>
               let sess = step cfg act \<lparr> stats = st, orders = backendOrders w, pending = suspended w \<rparr>
               in w\<lparr> heap := (heap w)(a := Some (stats sess)),
                     backendOrders := orders sess,
                     suspended := pending sess \<rparr>))"

text \<open>What a holder of a reference can do from outside: overwrite the object it points to.\<close>

definition writeObject :: "nat \<Rightarrow> AutoCopyTradingStats \<Rightarrow> World \<Rightarrow> World" where
  "writeObject r v w = w\<lparr> heap := (heap w)(r := Some v) \<rparr>"

definition newWorld :: World where
  "newWorld = \<lparr> heap = (\<lambda>_. None), nextRef = 0, backendOrders = [], suspended = [] \<rparr>"

subsection \<open>Invariant: nothing in flight exceeds the cap\<close>

definition boundedP :: "CopyConfig \<Rightarrow> Pending \<Rightarrow> bool" where
  "boundedP cfg p =
     (case p of
        AwaitDelay _ _ copyValue \<Rightarrow> copyValue \<le> maxSizePerTrade cfg
      | AwaitOrder _ usdcAmount \<Rightarrow> usdcAmount \<le> maxSizePerTrade cfg)"

definition bounded :: "CopyConfig \<Rightarrow> Session \<Rightarrow> bool" where
  "bounded cfg sess \<longleftrightarrow>
     list_all (boundedP cfg) (pending sess) \<and>
     list_all (\<lambda>ord. amount ord \<le> maxSizePerTrade cfg) (orders sess)"

subsection \<open>Example inputs\<close>

text \<open>A session that follows one address with every default, and a BUY of that address.\<close>

definition demoOptions :: AutoCopyTradingOptions where
  "demoOptions =
     \<lparr> opt_targetAddresses = Some [''0xAAA''], opt_topN = None, opt_sizeScale = None,
       opt_maxSizePerTrade = None, opt_maxSlippage = None, opt_orderType = None,
       opt_delay = None, opt_minTradeSize = None, opt_sideFilter = None,
       opt_dryRun = None, opt_onTrade = None \<rparr>"

definition demoConfig :: CopyConfig where
  "demoConfig = resolveConfig [''0xaaa''] demoOptions"

definition demoTrade :: "real \<Rightarrow> real \<Rightarrow> SmartMoneyTrade" where
  "demoTrade sz pr =
     \<lparr> traderAddress = ''0xaaa'', traderName = None, conditionId = None, marketSlug = None,
       side = BUY, tsize = sz, price = pr, tokenId = Some ''tok'', outcome = None,
       txHash = None, timestamp = 0, isSmartMoney = False, smartMoneyInfo = None \<rparr>"

text \<open>The same session as a dry run with a delay, and as a dry run whose
  \<^verbatim>\<open>onTrade\<close> callback throws.\<close>

definition dryConfig :: CopyConfig where
  "dryConfig = resolveConfig [''0xaaa''] (demoOptions\<lparr> opt_dryRun := Some True, opt_delay := Some 5 \<rparr>)"

definition throwingConfig :: CopyConfig where
  "throwingConfig =
     resolveConfig [''0xaaa'']
       (demoOptions\<lparr> opt_dryRun := Some True, opt_onTrade := Some (\<lambda>_ _. Threw) \<rparr>)"

subsection \<open>Invariants of the counters\<close>

text \<open>\<open>stats_le a b\<close>: no counter of \<open>b\<close> is below the one of \<open>a\<close>. \<open>positive\<close>:
  no suspended invocation carries a negative amount. \<open>accounted\<close>: every detected trade
  is skipped, executed, failed or still suspended, at most once. \<open>neverThrows\<close>: the
  session has no \<^verbatim>\<open>onTrade\<close> callback, or one that always returns.\<close>

definition stats_le :: "AutoCopyTradingStats \<Rightarrow> AutoCopyTradingStats \<Rightarrow> bool" where
  "stats_le a b \<longleftrightarrow>
     tradesDetected a \<le> tradesDetected b \<and> tradesExecuted a \<le> tradesExecuted b \<and>
     tradesSkipped a \<le> tradesSkipped b \<and> tradesFailed a \<le> tradesFailed b \<and>
     totalUsdcSpent a \<le> totalUsdcSpent b"

definition positiveP :: "Pending \<Rightarrow> bool" where
  "positiveP p = (case p of AwaitDelay _ _ copyValue \<Rightarrow> 0 \<le> copyValue | AwaitOrder _ usdcAmount \<Rightarrow> 0 \<le> usdcAmount)"

definition positive :: "Session \<Rightarrow> bool" where
  "positive sess = list_all positiveP (pending sess)"

definition accounted :: "Session \<Rightarrow> bool" where
  "accounted sess \<longleftrightarrow>
     tradesSkipped (stats sess) + tradesExecuted (stats sess) + tradesFailed (stats sess)
       + length (pending sess) \<le> tradesDetected (stats sess)"

definition neverThrows :: "CopyConfig \<Rightarrow> bool" where
  "neverThrows cfg = (case onTrade cfg of None \<Rightarrow> True | Some callback \<Rightarrow> \<forall>t r. callback t r = Returned)"

subsection \<open>Invariant and example inputs of the cache\<close>

text \<open>\<open>cacheInv\<close>: every cached wallet meets the minimum PnL. \<open>qualifying\<close>: the entries
  of a response the loop does not skip. Then three leaderboard entries (the third below
  the default minimum of 1000), and a service after a first refresh that returned
  \<open>entryA\<close> and, once the cache had expired, a second that returned \<open>entryB\<close> only.\<close>

definition cacheInv :: "Service \<Rightarrow> bool" where
  "cacheInv s = list_all (\<lambda>(k, w). \<not> pnl w < minPnl s) (smartMoneyCache s)"

definition qualifying :: "Service \<Rightarrow> LeaderboardEntry list \<Rightarrow> LeaderboardEntry list" where
  "qualifying s entries = filter (\<lambda>t. \<not> entry_pnl t < minPnl s) entries"

definition entryA :: LeaderboardEntry where
  "entryA = \<lparr> entry_address = ''0xA1'', userName = None, entry_pnl = 2000, entry_volume = 500000, entry_rank = None \<rparr>"
definition entryB :: LeaderboardEntry where
  "entryB = \<lparr> entry_address = ''0xb2'', userName = None, entry_pnl = 3000, entry_volume = 500000, entry_rank = Some 1 \<rparr>"
definition entryLow :: LeaderboardEntry where
  "entryLow = \<lparr> entry_address = ''0xc3'', userName = None, entry_pnl = 500, entry_volume = 500000, entry_rank = None \<rparr>"

definition afterRefresh1 :: Service where
  "afterRefresh1 = snd (getSmartMoneyList (\<lambda>_. Some [entryA]) 1000000 1000001 100 (newService None None))"
definition afterRefresh2 :: Service where
  "afterRefresh2 = snd (getSmartMoneyList (\<lambda>_. Some [entryB]) 2000000 2000001 100 afterRefresh1)"

text \<open>
  The first entry back on the leaderboard below the minimum, and the service after a
  second refresh that returned it instead of \<open>entryB\<close>. Options that follow the top one
  of the leaderboard and nobody else.
\<close>

definition entryAPoor :: LeaderboardEntry where
  "entryAPoor = entryA\<lparr> entry_pnl := 500 \<rparr>"

definition afterPoorRefresh :: Service where
  "afterPoorRefresh = snd (getSmartMoneyList (\<lambda>_. Some [entryAPoor]) 2000000 2000001 100 afterRefresh1)"

definition topOneOptions :: AutoCopyTradingOptions where
  "topOneOptions = demoOptions\<lparr> opt_targetAddresses := None, opt_topN := Some 1 \<rparr>"

subsection \<open>A stream of events, and example inputs of the subscription\<close>

text \<open>
  \<^verbatim>\<open>handleActivityTrade\<close> assigns no field of the service, so the events of a stream
  all run on the same service as long as no client call comes between them.
\<close>

definition streamEvents ::
  "(Handler \<Rightarrow> SmartMoneyTrade \<Rightarrow> Outcome) \<Rightarrow> ActivityTrade list \<Rightarrow> Service \<Rightarrow> Log list" where
  "streamEvents call es s = concat (map (\<lambda>e. onUpstreamTrade call e s) es)"

text \<open>The listeners a log shows a delivery to, in order.\<close>

definition receivers :: "Log list \<Rightarrow> Handler list" where
  "receivers logs = concat (map (\<lambda>l. case l of Delivered h _ \<Rightarrow> [h] | HandlerError _ \<Rightarrow> []) logs)"

text \<open>
  Options that follow one address, an event of one trader, a service with two listeners
  that follow different addresses, and listeners of which the first throws.
\<close>

definition optionsFor :: "string \<Rightarrow> SubscribeOptions" where
  "optionsFor a = \<lparr> filterAddresses = Some [a], minSize = None, smartMoneyOnly = None \<rparr>"

definition eventFrom :: "string \<Rightarrow> ActivityTrade" where
  "eventFrom a =
     \<lparr> trader = Some \<lparr> trader_address = Some a, trader_name = None \<rparr>,
       a_conditionId = None, a_marketSlug = None, a_side = BUY, a_size = 100, a_price = 1 / 2,
       asset = Some ''tok'', a_outcome = None, transactionHash = None, a_timestamp = 0 \<rparr>"

definition twoListeners :: Service where
  "twoListeners =
     subscribeSmartMoneyTrades 2 (UserFn 2) (optionsFor ''0xbbb'')
       (subscribeSmartMoneyTrades 0 (UserFn 1) (optionsFor ''0xAAA'')
          (newService None None))"

definition firstThrows :: "Handler \<Rightarrow> SmartMoneyTrade \<Rightarrow> Outcome" where
  "firstThrows h t = (if h = UserFn 1 then Threw else Returned)"

text \<open>
  \<open>detached h\<close>: the listener \<open>h\<close> is not registered, and the upstream subscription is
  gone when no listener is left.
\<close>

definition detached :: "Handler \<Rightarrow> Service \<Rightarrow> bool" where
  "detached h s \<longleftrightarrow>
     h \<notin> set (tradeHandlers s) \<and> (tradeHandlers s = [] \<longrightarrow> activeSubscription s = None)"

text \<open>
  A session started on a service that already has a listener, with the parts of what
  \<^verbatim>\<open>startAutoCopyTrading\<close> returns, and client calls that may come between two calls of
  \<^verbatim>\<open>stop\<close>.
\<close>

definition demoService :: Service where
  "demoService =
     subscribeSmartMoneyTrades 0 (UserFn 1) (optionsFor ''0xbbb'') (newService None None)"

definition demoStart ::
  "(error \<times> Service) + (AutoCopyTradingSubscription \<times> CopyConfig \<times> Service \<times> World)" where
  "demoStart = startAutoCopyTrading (\<lambda>_. None) 2 3 demoOptions demoService newWorld"

definition demoSub :: AutoCopyTradingSubscription where
  "demoSub = fst (projr demoStart)"

definition demoStarted :: Service where
  "demoStarted = fst (snd (snd (projr demoStart)))"

definition demoWorld :: World where
  "demoWorld = snd (snd (snd (projr demoStart)))"

text \<open>The store of that session after the handler was given a trade of the followed
  address, with the order submitted and not yet settled; and a result of the backend.\<close>

definition demoDelivered :: World where
  "demoDelivered = handlerStep demoConfig (stop_onTrade demoSub) (Deliver (demoTrade 100 (1 / 2))) demoWorld"

definition demoFilled :: OrderResult where
  "demoFilled = \<lparr> success = True, orderId = Some ''order-1'' \<rparr>"

definition demoOps :: "Op list" where
  "demoOps =
     [Subscribe 5 (UserFn 7) (optionsFor ''0xccc''), RefreshDone [entryA] 6, Unsubscribe (UserFn 1)]"

section \<open>Properties\<close>

lemmas demo_defs = demoConfig_def demoOptions_def demoTrade_def resolveConfig_def orDefault_def
  newSession_def newStats_def step_def deliver_def execute_def settle_def sizing_def
  slippagePrice_def MIN_ORDER_SIZE_def skipped_def failed_def dropPending_def
  toLowerCase_def toLowerChar_def Let_def

subsection \<open>Sizing\<close>

lemma sizing_le: "snd (sizing cfg trade) \<le> maxSizePerTrade cfg"
  by (simp add: sizing_def Let_def)

lemma bounded_skipped: "bounded cfg (skipped sess) = bounded cfg sess"
  by (simp add: bounded_def skipped_def)

lemma bounded_failed: "bounded cfg (failed sess) = bounded cfg sess"
  by (simp add: bounded_def failed_def)

lemma bounded_settle: "bounded cfg (settle cfg t u r sess) = bounded cfg sess"
  by (simp add: bounded_def settle_def failed_def Let_def split: option.splits Outcome.splits)

lemma bounded_execute:
  "bounded cfg sess \<Longrightarrow> cv \<le> maxSizePerTrade cfg \<Longrightarrow> bounded cfg (execute cfg t cs cv sess)"
  by (auto simp: execute_def bounded_skipped bounded_settle Let_def split: option.splits)
     (simp add: bounded_def boundedP_def)

lemma bounded_stats_update: "bounded cfg (sess\<lparr> stats := st \<rparr>) = bounded cfg sess"
  by (simp add: bounded_def)

lemma bounded_deliver: "bounded cfg sess \<Longrightarrow> bounded cfg (deliver cfg t sess)"
  using sizing_le [of cfg t]
  by (auto simp: deliver_def Let_def bounded_skipped bounded_stats_update bounded_execute
           split: prod.splits)
     (simp_all add: bounded_def boundedP_def)

lemma bounded_dropPending: "bounded cfg sess \<Longrightarrow> bounded cfg (dropPending i sess)"
  by (auto simp: bounded_def dropPending_def list_all_iff dest: in_set_takeD in_set_dropD)

lemma bounded_nth:
  "bounded cfg sess \<Longrightarrow> i < length (pending sess) \<Longrightarrow> boundedP cfg (pending sess ! i)"
  by (simp add: bounded_def list_all_length)

lemma bounded_step:
  assumes b: "bounded cfg sess"
  shows "bounded cfg (step cfg a sess)"
proof (cases a)
  case (Deliver t)
  with b show ?thesis by (simp add: step_def bounded_deliver)
next
  case (DelayElapsed i)
  show ?thesis
  proof (cases "i < length (pending sess)")
    case True
    with b have "boundedP cfg (pending sess ! i)" by (rule bounded_nth)
    with b True DelayElapsed show ?thesis
      by (cases "pending sess ! i")
         (simp_all add: step_def boundedP_def bounded_execute bounded_dropPending)
  next
    case False
    with b DelayElapsed show ?thesis by (simp add: step_def)
  qed
next
  case (OrderSettled i r)
  show ?thesis
  proof (cases "i < length (pending sess)")
    case True
    with b OrderSettled show ?thesis
      by (cases "pending sess ! i"; cases r)
         (simp_all add: step_def bounded_settle bounded_failed bounded_dropPending)
  next
    case False
    with b OrderSettled show ?thesis by (simp add: step_def)
  qed
qed

lemma bounded_run: "bounded cfg sess \<Longrightarrow> bounded cfg (run cfg as sess)"
  by (induction as arbitrary: sess) (simp_all add: bounded_step)

lemma bounded_new: "bounded cfg (newSession t)"
  by (simp add: bounded_def newSession_def)

text \<open>
  C5. The replica notional the handler computes never exceeds \<open>maxSizePerTrade\<close>: a
  candidate notional (source size times \<open>sizeScale\<close> times source price) above the cap
  gives the notional \<open>maxSizePerTrade\<close> and the size \<open>maxSizePerTrade / price\<close>, any
  other candidate is kept as it is; and in every run of a session, every order submitted
  to the backend has an amount of at most \<open>maxSizePerTrade\<close>. (The quotient is stated
  for a non-zero price: for a price of 0 the source's quotient is an infinity.)
\<close>

theorem replica_notional_clamped:
  "snd (sizing cfg trade) \<le> maxSizePerTrade cfg \<and>
   (tsize trade * sizeScale cfg * price trade > maxSizePerTrade cfg \<longrightarrow>
      snd (sizing cfg trade) = maxSizePerTrade cfg \<and>
      (price trade \<noteq> 0 \<longrightarrow> fst (sizing cfg trade) = maxSizePerTrade cfg / price trade)) \<and>
   (\<not> tsize trade * sizeScale cfg * price trade > maxSizePerTrade cfg \<longrightarrow>
      sizing cfg trade = (tsize trade * sizeScale cfg, tsize trade * sizeScale cfg * price trade)) \<and>
   (\<forall>ord \<in> set (orders (run cfg as (newSession t0))). amount ord \<le> maxSizePerTrade cfg)"
proof -
  have "bounded cfg (run cfg as (newSession t0))"
    by (rule bounded_run) (rule bounded_new)
  then have "\<forall>ord \<in> set (orders (run cfg as (newSession t0))). amount ord \<le> maxSizePerTrade cfg"
    by (simp add: bounded_def list_all_iff)
  then show ?thesis
    by (simp add: sizing_def Let_def)
qed

theorem replica_notional_clamped_witness:
  "sizing demoConfig (demoTrade 10000 (1 / 2)) = (100, 50) \<and>
   sizing demoConfig (demoTrade 100 (1 / 2)) = (10, 5) \<and>
   map amount (orders (run demoConfig
      [Deliver (demoTrade 10000 (1 / 2)), Deliver (demoTrade 100 (1 / 2))] (newSession 0))) = [50, 5] \<and>
   maxSizePerTrade demoConfig = 50"
  using replica_notional_clamped [of demoConfig "demoTrade 10000 (1 / 2)"
      "[Deliver (demoTrade 10000 (1 / 2)), Deliver (demoTrade 100 (1 / 2))]" 0]
    replica_notional_clamped [of demoConfig "demoTrade 100 (1 / 2)" "[]" 0]
  by (simp add: demo_defs)

subsection \<open>Pricing\<close>

text \<open>
  C6. For every trade that reaches the pricing step the limit price is the source price
  times \<open>1 + maxSlippage\<close> for a BUY and times \<open>1 - maxSlippage\<close> for a SELL; for the
  price 0.60, a BUY and a slippage of 0.03 it is 0.618; and it is the price of the order
  the handler submits.
\<close>

theorem limit_price:
  "(side trade = BUY \<longrightarrow> slippagePrice cfg trade = price trade * (1 + maxSlippage cfg)) \<and>
   (side trade = SELL \<longrightarrow> slippagePrice cfg trade = price trade * (1 - maxSlippage cfg)) \<and>
   (side trade = BUY \<and> price trade = 60 / 100 \<and> maxSlippage cfg = 3 / 100 \<longrightarrow>
      slippagePrice cfg trade = 618 / 1000) \<and>
   (\<not> dryRun cfg \<and> tokenId trade = Some tok \<and> tok \<noteq> [] \<longrightarrow>
      map order_price (orders (execute cfg trade copySize copyValue sess)) =
        map order_price (orders sess) @ [slippagePrice cfg trade])"
proof -
  have sides: "(side trade = BUY \<longrightarrow> slippagePrice cfg trade = price trade * (1 + maxSlippage cfg)) \<and>
      (side trade = SELL \<longrightarrow> slippagePrice cfg trade = price trade * (1 - maxSlippage cfg))"
    by (cases "side trade") (simp_all add: slippagePrice_def)
  have example: "slippagePrice cfg trade = 618 / 1000"
    if "side trade = BUY" and p: "price trade = 60 / 100" and m: "maxSlippage cfg = 3 / 100"
  proof -
    from that(1) sides have e: "slippagePrice cfg trade = price trade * (1 + maxSlippage cfg)"
      by blast
    show ?thesis unfolding e p m by simp
  qed
  have submitted: "map order_price (orders (execute cfg trade copySize copyValue sess)) =
      map order_price (orders sess) @ [slippagePrice cfg trade]"
    if "\<not> dryRun cfg" and "tokenId trade = Some tok" and "tok \<noteq> []"
    using that by (simp add: execute_def Let_def)
  from sides example submitted show ?thesis by blast
qed

theorem limit_price_witness:
  "side (demoTrade 100 (60 / 100)) = BUY \<and> price (demoTrade 100 (60 / 100)) = 60 / 100 \<and>
   maxSlippage demoConfig = 3 / 100 \<and> \<not> dryRun demoConfig \<and>
   slippagePrice demoConfig (demoTrade 100 (60 / 100)) = 618 / 1000 \<and>
   slippagePrice demoConfig ((demoTrade 100 (60 / 100))\<lparr> side := SELL \<rparr>) = 582 / 1000 \<and>
   map order_price (orders (run demoConfig [Deliver (demoTrade 100 (60 / 100))] (newSession 0))) = [618 / 1000]"
  using limit_price [of "demoTrade 100 (60 / 100)" demoConfig "''tok''" 10 6 "(newSession 0)\<lparr> stats := (newStats 0)\<lparr> tradesDetected := 1 \<rparr> \<rparr>"]
    limit_price [of "(demoTrade 100 (60 / 100))\<lparr> side := SELL \<rparr>" demoConfig "''tok''" 10 6 "newSession 0"]
  by (simp add: demo_defs)

subsection \<open>Dry run\<close>

lemma dry_orders_settle: "orders (settle cfg t u r sess) = orders sess"
  by (simp add: settle_def failed_def Let_def split: option.splits Outcome.splits)

lemma dry_orders_execute: "dryRun cfg \<Longrightarrow> orders (execute cfg t cs cv sess) = orders sess"
  by (simp add: execute_def skipped_def dry_orders_settle Let_def split: option.splits)

lemma dry_orders_deliver: "dryRun cfg \<Longrightarrow> orders (deliver cfg t sess) = orders sess"
  by (simp add: deliver_def skipped_def dry_orders_execute Let_def split: prod.splits)

lemma dry_orders_step: "dryRun cfg \<Longrightarrow> orders (step cfg a sess) = orders sess"
  by (cases a)
     (simp_all add: step_def dry_orders_deliver dry_orders_execute dry_orders_settle
        failed_def dropPending_def split: Pending.splits Settlement.splits)
lemma dry_orders_run: "dryRun cfg \<Longrightarrow> orders (run cfg as sess) = orders sess"
  by (induction as arbitrary: sess) (simp_all add: dry_orders_step)

lemma settle_success:
  "success r \<Longrightarrow> tradesExecuted (stats (settle cfg t u r sess)) = tradesExecuted (stats sess) + 1 \<and>
     totalUsdcSpent (stats (settle cfg t u r sess)) = totalUsdcSpent (stats sess) + u"
  by (simp add: settle_def failed_def Let_def split: option.splits Outcome.splits)

lemma execute_dry:
  "dryRun cfg \<Longrightarrow> tokenId t = Some tok \<Longrightarrow> tok \<noteq> [] \<Longrightarrow>
   tradesExecuted (stats (execute cfg t cs cv sess)) = tradesExecuted (stats sess) + 1 \<and>
   totalUsdcSpent (stats (execute cfg t cs cv sess)) = totalUsdcSpent (stats sess) + cv"
  by (simp add: execute_def Let_def settle_success)

lemma deliver_qualifying:
  assumes "toLowerCase (traderAddress trade) \<in> set (targetAddresses cfg)"
    and "\<not> tsize trade * price trade < minTradeSize cfg"
    and "sideFilter cfg = None \<or> sideFilter cfg = Some (side trade)"
    and "\<not> snd (sizing cfg trade) < MIN_ORDER_SIZE"
  shows "deliver cfg trade sess =
     (let sess1 = sess\<lparr> stats := (stats sess)\<lparr> tradesDetected := tradesDetected (stats sess) + 1 \<rparr> \<rparr>
      in if delay cfg > 0
         then sess1\<lparr> pending := pending sess1 @ [AwaitDelay trade (fst (sizing cfg trade)) (snd (sizing cfg trade))] \<rparr>
         else execute cfg trade (fst (sizing cfg trade)) (snd (sizing cfg trade)) sess1)"
  using assms by (auto simp: deliver_def Let_def split: prod.splits)

text \<open>
  C7. In a dry run, a trade that passes every filter and sizing step (a followed trader,
  a source notional of at least \<open>minTradeSize\<close>, the side wanted, a replica notional of
  at least the minimum order, an asset id) adds one to \<open>tradesExecuted\<close> and the replica
  notional to \<open>totalUsdcSpent\<close>, with or without the delay; and no run of a dry-run
  session submits an order to the backend.
\<close>

theorem dry_run_executes:
  assumes dry: "dryRun cfg"
    and target: "toLowerCase (traderAddress trade) \<in> set (targetAddresses cfg)"
    and val: "\<not> tsize trade * price trade < minTradeSize cfg"
    and sd: "sideFilter cfg = None \<or> sideFilter cfg = Some (side trade)"
    and floor: "\<not> snd (sizing cfg trade) < MIN_ORDER_SIZE"
    and tok: "tokenId trade = Some tok" "tok \<noteq> []"
    and s1: "s1 = step cfg (Deliver trade) sess"
    and s2: "s2 = (if delay cfg > 0 then step cfg (DelayElapsed (length (pending sess))) s1 else s1)"
  shows "tradesExecuted (stats s2) = tradesExecuted (stats sess) + 1 \<and>
         totalUsdcSpent (stats s2) = totalUsdcSpent (stats sess) + snd (sizing cfg trade) \<and>
         orders s2 = orders sess \<and>
         orders (run cfg as sess) = orders sess"
proof -
  let ?cs = "fst (sizing cfg trade)" and ?cv = "snd (sizing cfg trade)"
  let ?d = "sess\<lparr> stats := (stats sess)\<lparr> tradesDetected := tradesDetected (stats sess) + 1 \<rparr> \<rparr>"
  have s2_eq: "s2 = execute cfg trade ?cs ?cv ?d"
  proof (cases "delay cfg > 0")
    case False
    with s1 s2 show ?thesis
      by (simp add: step_def deliver_qualifying [OF target val sd floor])
  next
    case True
    with s1 have "s1 = ?d\<lparr> pending := pending sess @ [AwaitDelay trade ?cs ?cv] \<rparr>"
      by (simp add: step_def deliver_qualifying [OF target val sd floor])
    with True s2 show ?thesis
      by (simp add: step_def dropPending_def)
  qed
  have "tradesExecuted (stats s2) = tradesExecuted (stats ?d) + 1 \<and>
        totalUsdcSpent (stats s2) = totalUsdcSpent (stats ?d) + ?cv"
    unfolding s2_eq by (rule execute_dry [OF dry tok])
  moreover have "orders s2 = orders sess"
    unfolding s2_eq by (simp add: dry_orders_execute [OF dry])
  moreover have "orders (run cfg as sess) = orders sess"
    by (rule dry_orders_run [OF dry])
  ultimately show ?thesis by simp
qed

theorem dry_run_executes_witness:
  "dryRun dryConfig \<and>
   stats (run dryConfig [Deliver (demoTrade 100 (1 / 2)), DelayElapsed 0] (newSession 0)) =
     (newStats 0)\<lparr> tradesDetected := 1, tradesExecuted := 1, totalUsdcSpent := 5 \<rparr> \<and>
   orders (run dryConfig [Deliver (demoTrade 100 (1 / 2)), DelayElapsed 0] (newSession 0)) = []"
  using dry_run_executes [of dryConfig "demoTrade 100 (1 / 2)" "''tok''"
      "step dryConfig (Deliver (demoTrade 100 (1 / 2))) (newSession 0)" "newSession 0"
      "run dryConfig [Deliver (demoTrade 100 (1 / 2)), DelayElapsed 0] (newSession 0)"
      "[Deliver (demoTrade 100 (1 / 2)), DelayElapsed 0]"]
  by (simp add: dryConfig_def demo_defs)

subsection \<open>Counters\<close>

text \<open>
  C4. The claim is that after every event \<open>tradesDetected\<close> is at least the sum of
  \<open>tradesSkipped\<close>, \<open>tradesExecuted\<close> and \<open>tradesFailed\<close>. An \<^verbatim>\<open>onTrade\<close>
  callback that throws is called inside the \<^verbatim>\<open>try\<close> block after the trade was counted
  as executed, and the \<^verbatim>\<open>catch\<close> counts the same trade as failed: after one trade
  the counters are 1 detected, 1 executed, 1 failed.
\<close>

theorem executed_and_failed_for_one_trade:
  "stats (run throwingConfig [Deliver (demoTrade 100 (1 / 2))] (newSession 0)) =
     (newStats 0)\<lparr> tradesDetected := 1, tradesExecuted := 1, tradesFailed := 1, totalUsdcSpent := 5 \<rparr> \<and>
   \<not> (tradesDetected (stats (run throwingConfig [Deliver (demoTrade 100 (1 / 2))] (newSession 0)))
        \<ge> tradesSkipped (stats (run throwingConfig [Deliver (demoTrade 100 (1 / 2))] (newSession 0)))
          + tradesExecuted (stats (run throwingConfig [Deliver (demoTrade 100 (1 / 2))] (newSession 0)))
          + tradesFailed (stats (run throwingConfig [Deliver (demoTrade 100 (1 / 2))] (newSession 0))))"
  by (simp add: throwingConfig_def demo_defs)

text \<open>
  What does hold. No counter ever decreases, whatever the callback does; and with no
  \<^verbatim>\<open>onTrade\<close> callback, or one that never throws, the detected trades bound the sum
  of the other three after every event of every run.
\<close>

lemma stats_le_refl: "stats_le a a"
  by (simp add: stats_le_def)

lemma stats_le_trans: "stats_le a b \<Longrightarrow> stats_le b c \<Longrightarrow> stats_le a c"
  by (auto simp: stats_le_def)

lemma mono_skipped: "stats_le (stats sess) (stats (skipped sess))"
  by (simp add: stats_le_def skipped_def)

lemma mono_failed: "stats_le (stats sess) (stats (failed sess))"
  by (simp add: stats_le_def failed_def)

lemma mono_settle: "0 \<le> u \<Longrightarrow> stats_le (stats sess) (stats (settle cfg t u r sess))"
  by (simp add: stats_le_def settle_def failed_def Let_def split: option.splits Outcome.splits)

lemma mono_execute: "0 \<le> cv \<Longrightarrow> stats_le (stats sess) (stats (execute cfg t cs cv sess))"
  by (simp add: execute_def Let_def mono_skipped mono_settle stats_le_refl split: option.splits)

lemma pending_skipped: "pending (skipped sess) = pending sess"
  by (simp add: skipped_def)

lemma pending_failed: "pending (failed sess) = pending sess"
  by (simp add: failed_def)

lemma pending_settle: "pending (settle cfg t u r sess) = pending sess"
  by (simp add: settle_def failed_def Let_def split: option.splits Outcome.splits)

lemma positive_execute: "positive sess \<Longrightarrow> 0 \<le> cv \<Longrightarrow> positive (execute cfg t cs cv sess)"
  by (simp add: positive_def execute_def Let_def pending_skipped pending_settle positiveP_def split: option.splits)

lemma mono_deliver: "stats_le (stats sess) (stats (deliver cfg t sess)) \<and> (positive sess \<longrightarrow> positive (deliver cfg t sess))"
proof -
  let ?d = "sess\<lparr> stats := (stats sess)\<lparr> tradesDetected := tradesDetected (stats sess) + 1 \<rparr> \<rparr>"
  have d: "stats_le (stats sess) (stats ?d)" by (simp add: stats_le_def)
  have pd: "positive ?d = positive sess" by (simp add: positive_def)
  have sk: "stats_le (stats sess) (stats (skipped ?d))"
    by (rule stats_le_trans [OF d mono_skipped])
  have psk: "positive (skipped ?d) = positive sess" by (simp add: positive_def pending_skipped)
  have ex: "stats_le (stats sess) (stats (execute cfg t cs cv ?d))" if "0 \<le> cv" for cs cv
    by (rule stats_le_trans [OF d mono_execute [OF that]])
  have pex: "positive (execute cfg t cs cv ?d)" if "0 \<le> cv" "positive sess" for cs cv
  proof (rule positive_execute)
    show "positive ?d" using that pd by simp
    show "0 \<le> cv" by fact
  qed
  have pw: "positive (?d\<lparr> pending := pending ?d @ [AwaitDelay t cs cv] \<rparr>)" if "0 \<le> cv" "positive sess" for cs cv
    using that by (simp add: positive_def positiveP_def)
  show ?thesis
    unfolding deliver_def Let_def
    using d pd sk psk ex pex pw
    by (auto simp: MIN_ORDER_SIZE_def split: prod.splits)
qed

lemma positive_dropPending: "positive sess \<Longrightarrow> positive (dropPending i sess)"
  by (auto simp: positive_def dropPending_def list_all_iff dest: in_set_takeD in_set_dropD)

lemma stats_dropPending: "stats (dropPending i sess) = stats sess"
  by (simp add: dropPending_def)

lemma mono_step:
  assumes p: "positive sess"
  shows "stats_le (stats sess) (stats (step cfg a sess)) \<and> positive (step cfg a sess)"
proof (cases a)
  case (Deliver t)
  with p mono_deliver [of sess cfg t] show ?thesis by (simp add: step_def)
next
  case (DelayElapsed i)
  show ?thesis
  proof (cases "i < length (pending sess)")
    case True
    with p have pp: "positiveP (pending sess ! i)" by (simp add: positive_def list_all_length)
    show ?thesis
    proof (cases "pending sess ! i")
      case (AwaitDelay t cs cv)
      with pp have "0 \<le> cv" by (simp add: positiveP_def)
      then have "stats_le (stats (dropPending i sess)) (stats (execute cfg t cs cv (dropPending i sess)))"
        and "positive (execute cfg t cs cv (dropPending i sess))"
        using positive_dropPending [OF p] by (simp_all add: mono_execute positive_execute)
      with True DelayElapsed AwaitDelay
      show ?thesis by (simp add: step_def stats_dropPending)
    next
      case (AwaitOrder t u)
      with p True DelayElapsed show ?thesis by (simp add: step_def stats_le_refl)
    qed
  next
    case False
    with p DelayElapsed show ?thesis by (simp add: step_def stats_le_refl)
  qed
next
  case (OrderSettled i r)
  show ?thesis
  proof (cases "i < length (pending sess)")
    case True
    with p have pp: "positiveP (pending sess ! i)" by (simp add: positive_def list_all_length)
    show ?thesis
    proof (cases "pending sess ! i")
      case (AwaitDelay t cs cv)
      with p True OrderSettled show ?thesis by (simp add: step_def stats_le_refl)
    next
      case (AwaitOrder t u)
      with pp have u: "0 \<le> u" by (simp add: positiveP_def)
      have pd: "positive (dropPending i sess)" by (rule positive_dropPending [OF p])
      show ?thesis
      proof (cases r)
        case (Fulfilled res)
        have "stats_le (stats (dropPending i sess)) (stats (settle cfg t u res (dropPending i sess)))"
          by (rule mono_settle [OF u])
        with Fulfilled True OrderSettled AwaitOrder pd
        show ?thesis by (simp add: step_def stats_dropPending positive_def pending_settle)
      next
        case Rejected
        have "stats_le (stats (dropPending i sess)) (stats (failed (dropPending i sess)))"
          by (rule mono_failed)
        with Rejected True OrderSettled AwaitOrder pd
        show ?thesis by (simp add: step_def stats_dropPending positive_def pending_failed)
      qed
    qed
  next
    case False
    with p OrderSettled show ?thesis by (simp add: step_def stats_le_refl)
  qed
qed

lemma mono_run: "positive sess \<Longrightarrow> stats_le (stats sess) (stats (run cfg as sess)) \<and> positive (run cfg as sess)"
proof (induction as arbitrary: sess)
  case Nil
  then show ?case by (simp add: stats_le_refl)
next
  case (Cons a as)
  from mono_step [OF Cons.prems, of cfg a]
  have 1: "stats_le (stats sess) (stats (step cfg a sess))" and 2: "positive (step cfg a sess)" by simp_all
  from Cons.IH [OF 2] 1 show ?case by (auto intro: stats_le_trans)
qed

lemma acc_settle:
  "neverThrows cfg \<Longrightarrow>
   tradesSkipped (stats (settle cfg t u r sess)) + tradesExecuted (stats (settle cfg t u r sess))
     + tradesFailed (stats (settle cfg t u r sess))
   = tradesSkipped (stats sess) + tradesExecuted (stats sess) + tradesFailed (stats sess) + 1 \<and>
   tradesDetected (stats (settle cfg t u r sess)) = tradesDetected (stats sess)"
  by (simp add: settle_def failed_def neverThrows_def Let_def split: option.splits Outcome.splits)

lemma acc_execute:
  "neverThrows cfg \<Longrightarrow> accounted (sess\<lparr> pending := pending sess @ [p] \<rparr>) \<Longrightarrow>
   accounted (execute cfg t cs cv sess)"
  using acc_settle [of cfg t cv "\<lparr> success = True, orderId = Some ''dry_run_'' \<rparr>" sess]
  by (simp add: accounted_def execute_def skipped_def Let_def pending_settle split: option.splits)

lemma length_dropPending:
  "i < length (pending sess) \<Longrightarrow> Suc (length (pending (dropPending i sess))) = length (pending sess)"
  by (simp add: dropPending_def)

lemma acc_deliver: "neverThrows cfg \<Longrightarrow> accounted sess \<Longrightarrow> accounted (deliver cfg t sess)"
proof -
  assume nt: "neverThrows cfg" and a: "accounted sess"
  let ?d = "sess\<lparr> stats := (stats sess)\<lparr> tradesDetected := tradesDetected (stats sess) + 1 \<rparr> \<rparr>"
  from a have 1: "accounted ?d" by (simp add: accounted_def)
  from a have 2: "accounted (skipped ?d)" by (simp add: accounted_def skipped_def)
  from a have 3: "accounted (?d\<lparr> pending := pending ?d @ [p] \<rparr>)" for p by (simp add: accounted_def)
  have 4: "accounted (execute cfg t cs cv ?d)" for cs cv
    by (rule acc_execute [OF nt 3])
  show ?thesis
    unfolding deliver_def Let_def using 1 2 3 4 by (auto split: prod.splits)
qed

lemma acc_step:
  assumes nt: "neverThrows cfg" and a: "accounted sess"
  shows "accounted (step cfg a' sess)"
proof (cases a')
  case (Deliver t)
  with nt a show ?thesis by (simp add: step_def acc_deliver)
next
  case (DelayElapsed i)
  show ?thesis
  proof (cases "i < length (pending sess)")
    case True
    from a length_dropPending [OF True]
    have "accounted ((dropPending i sess)\<lparr> pending := pending (dropPending i sess) @ [p] \<rparr>)" for p
      by (simp add: accounted_def stats_dropPending)
    then have "accounted (execute cfg t cs cv (dropPending i sess))" for t cs cv
      by (rule acc_execute [OF nt])
    with a True DelayElapsed show ?thesis
      by (simp add: step_def split: Pending.splits)
  next
    case False
    with a DelayElapsed show ?thesis by (simp add: step_def)
  qed
next
  case (OrderSettled i r)
  show ?thesis
  proof (cases "i < length (pending sess)")
    case True
    have s: "accounted (settle cfg t u res (dropPending i sess))" for t u res
      using a length_dropPending [OF True] acc_settle [OF nt, of t u res "dropPending i sess"]
      by (simp add: accounted_def stats_dropPending pending_settle)
    have f: "accounted (failed (dropPending i sess))"
      using a length_dropPending [OF True]
      by (simp add: accounted_def failed_def dropPending_def)
    from a True OrderSettled s f show ?thesis
      by (simp add: step_def split: Pending.splits Settlement.splits)
  next
    case False
    with a OrderSettled show ?thesis by (simp add: step_def)
  qed
qed

lemma acc_run: "neverThrows cfg \<Longrightarrow> accounted sess \<Longrightarrow> accounted (run cfg as sess)"
  by (induction as arbitrary: sess) (simp_all add: acc_step)

lemma counters_without_throwing_callback:
  assumes "neverThrows cfg"
  shows "tradesSkipped (stats (run cfg as (newSession t0))) + tradesExecuted (stats (run cfg as (newSession t0)))
     + tradesFailed (stats (run cfg as (newSession t0))) \<le> tradesDetected (stats (run cfg as (newSession t0)))"
proof -
  have "accounted (newSession t0)" by (simp add: accounted_def newSession_def newStats_def)
  from acc_run [OF assms this, of as] show ?thesis by (simp add: accounted_def)
qed

lemma counters_never_decrease:
  "stats_le (stats (run cfg as (newSession t0))) (stats (run cfg (as @ bs) (newSession t0)))"
proof -
  have run_append: "run cfg (xs @ ys) s = run cfg ys (run cfg xs s)" for xs ys s
    by (induction xs arbitrary: s) simp_all
  have "positive (newSession t0)" by (simp add: positive_def newSession_def)
  then have "positive (run cfg as (newSession t0))" using mono_run by blast
  then show ?thesis unfolding run_append using mono_run by blast
qed

subsection \<open>The cohort cache\<close>

lemma map_set_keys: "fst ` set (map_set k v kvs) = insert k (fst ` set kvs)"
proof (induction kvs)
  case Nil
  show ?case by simp
next
  case (Cons kv kvs)
  obtain k' v' where kv: "kv = (k', v')" by (cases kv)
  show ?case
  proof (cases "k' = k")
    case True
    with kv show ?thesis by simp
  next
    case False
    with kv Cons show ?thesis by (simp add: insert_commute)
  qed
qed

lemma map_set_all: "list_all P kvs \<Longrightarrow> P (k, v) \<Longrightarrow> list_all P (map_set k v kvs)"
  by (induction kvs) auto

lemma refreshLoop_fields:
  "minPnl (snd (refreshLoop i ts acc s)) = minPnl s \<and>
   cacheTtl (snd (refreshLoop i ts acc s)) = cacheTtl s \<and>
   cacheTimestamp (snd (refreshLoop i ts acc s)) = cacheTimestamp s \<and>
   activeSubscription (snd (refreshLoop i ts acc s)) = activeSubscription s \<and>
   tradeHandlers (snd (refreshLoop i ts acc s)) = tradeHandlers s \<and>
   leaderboardCalls (snd (refreshLoop i ts acc s)) = leaderboardCalls s \<and>
   upstreamSubscribes (snd (refreshLoop i ts acc s)) = upstreamSubscribes s \<and>
   upstreamUnsubscribes (snd (refreshLoop i ts acc s)) = upstreamUnsubscribes s"
  by (induction ts arbitrary: i acc s) (simp_all add: Let_def)

lemma refreshLoop_set:
  "smartMoneySet (snd (refreshLoop i ts acc s)) =
     smartMoneySet s \<union> (\<lambda>t. toLowerCase (entry_address t)) ` set (qualifying s ts)"
  by (induction ts arbitrary: i acc s) (auto simp: Let_def qualifying_def walletOf_def)

lemma refreshLoop_keys:
  "fst ` set (smartMoneyCache (snd (refreshLoop i ts acc s))) =
     fst ` set (smartMoneyCache s) \<union> (\<lambda>t. toLowerCase (entry_address t)) ` set (qualifying s ts)"
proof (induction ts arbitrary: i acc s)
  case Nil
  then show ?case by (simp add: qualifying_def)
next
  case (Cons t ts)
  show ?case
  proof (cases "entry_pnl t < minPnl s")
    case True
    with Cons show ?thesis by (simp add: qualifying_def)
  next
    case False
    with Cons show ?thesis
      by (simp add: Let_def qualifying_def map_set_keys walletOf_def insert_commute Un_commute del: image_insert)
        (auto simp: walletOf_def)
  qed
qed

lemma refreshLoop_list:
  "fst (refreshLoop i ts acc s) =
     acc @ map (\<lambda>(j, t). walletOf j t) (filter (\<lambda>(j, t). \<not> entry_pnl t < minPnl s) (enumerate i ts))"
  by (induction ts arbitrary: i acc s) (simp_all add: Let_def)

lemma refreshLoop_inv:
  "cacheInv s \<Longrightarrow> cacheInv (snd (refreshLoop i ts acc s))"
proof (induction ts arbitrary: i acc s)
  case Nil
  then show ?case by simp
next
  case (Cons t ts)
  show ?case
  proof (cases "entry_pnl t < minPnl s")
    case True
    with Cons show ?thesis by simp
  next
    case False
    let ?w = "walletOf i t"
    let ?s = "s\<lparr> smartMoneyCache := map_set (address ?w) ?w (smartMoneyCache s),
                  smartMoneySet := insert (address ?w) (smartMoneySet s) \<rparr>"
    have "cacheInv ?s"
      using Cons.prems False
      by (simp add: cacheInv_def map_set_all walletOf_def)
    from Cons.IH [OF this] False show ?thesis by (simp add: Let_def)
  qed
qed

lemma refresh_result:
  assumes "\<not> isCacheValid now s" and "provider limit = Some entries"
  shows "getSmartMoneyList provider now now' limit s =
     (Inr (fst (refreshLoop 0 entries [] (s\<lparr> leaderboardCalls := leaderboardCalls s + 1 \<rparr>))),
      (snd (refreshLoop 0 entries [] (s\<lparr> leaderboardCalls := leaderboardCalls s + 1 \<rparr>)))
        \<lparr> cacheTimestamp := now' \<rparr>)"
  using assms by (simp add: getSmartMoneyList_def Let_def split: prod.splits)

lemmas cache_defs = afterRefresh1_def afterRefresh2_def getSmartMoneyList_def isSmartMoneyAddr_def
  newService_def isCacheValid_def entryA_def entryB_def Let_def walletOf_def map_values_def
  toLowerCase_def toLowerChar_def

text \<open>
  C1. The claim is that a refresh replaces the cohort, so that a wallet missing from the
  provider's response is no longer a member. The refresh loop only ever adds to the map
  and the set. The first refresh returns \<open>0xa1\<close>; the second, once the cache has
  expired, gets a response without \<open>0xa1\<close> and itself returns \<open>0xb2\<close> only; yet after it
  \<^verbatim>\<open>isSmartMoney\<close> answers true for \<open>0xa1\<close> and the cached path of the same function
  returns \<open>0xa1\<close> and \<open>0xb2\<close>. And when the second response has \<open>0xa1\<close> with a pnl below
  the minimum, the loop skips the entry, the call returns nothing, and \<open>0xa1\<close> is still
  a member with its old pnl of 2000.
\<close>

theorem stale_wallet_stays_member:
  "map_sum id (map address)
     (fst (getSmartMoneyList (\<lambda>_. Some [entryA]) 1000000 1000001 100 (newService None None))) = Inr [''0xa1''] \<and>
   ''0xa1'' \<in> smartMoneySet afterRefresh1 \<and>
   \<not> isCacheValid 2000000 afterRefresh1 \<and>
   map_sum id (map address)
     (fst (getSmartMoneyList (\<lambda>_. Some [entryB]) 2000000 2000001 100 afterRefresh1)) = Inr [''0xb2''] \<and>
   leaderboardCalls afterRefresh2 = 2 \<and>
   fst (isSmartMoneyAddr (\<lambda>_. Some [entryB]) 2000002 2000003 ''0xA1'' afterRefresh2) = Inr True \<and>
   map_sum id (map address)
     (fst (getSmartMoneyList (\<lambda>_. Some [entryB]) 2000002 2000003 100 afterRefresh2)) = Inr [''0xa1'', ''0xb2''] \<and>
   map_sum id (map address)
     (fst (getSmartMoneyList (\<lambda>_. Some [entryAPoor]) 2000000 2000001 100 afterRefresh1)) = Inr [] \<and>
   fst (isSmartMoneyAddr (\<lambda>_. Some [entryAPoor]) 2000002 2000003 ''0xA1'' afterPoorRefresh) = Inr True \<and>
   map pnl (map_values (smartMoneyCache afterPoorRefresh)) = [2000]"
  by (simp add: afterPoorRefresh_def entryAPoor_def cache_defs)

text \<open>
  What the code does on a refresh: after a successful one the membership set and the
  key set of the map are the old ones united with the lower-cased addresses of the
  entries of the response that meet the minimum PnL, so whoever was a member before is
  a member after.
\<close>

lemma refresh_merges:
  assumes "\<not> isCacheValid now s" and "provider limit = Some entries"
    and "s' = snd (getSmartMoneyList provider now now' limit s)"
    and "added = (\<lambda>t. toLowerCase (entry_address t)) ` set (qualifying s entries)"
  shows "smartMoneySet s' = smartMoneySet s \<union> added \<and>
         fst ` set (smartMoneyCache s') = fst ` set (smartMoneyCache s) \<union> added \<and>
         (\<forall>a. toLowerCase a \<in> smartMoneySet s \<and> isCacheValid t s' \<longrightarrow>
              fst (isSmartMoneyAddr provider' t t' a s') = Inr True)"
proof -
  let ?s1 = "s\<lparr> leaderboardCalls := leaderboardCalls s + 1 \<rparr>"
  have s': "s' = (snd (refreshLoop 0 entries [] ?s1))\<lparr> cacheTimestamp := now' \<rparr>"
    using assms(3) refresh_result [of now s provider limit entries now'] assms(1,2) by simp
  have q: "qualifying (s\<lparr> leaderboardCalls := n \<rparr>) entries = qualifying s entries" for n
    by (simp add: qualifying_def)
  have 1: "smartMoneySet s' = smartMoneySet s \<union> added"
    unfolding s' assms(4) by (simp add: refreshLoop_set q)
  have 2: "fst ` set (smartMoneyCache s') = fst ` set (smartMoneyCache s) \<union> added"
    unfolding s' assms(4) by (simp add: refreshLoop_keys q)
  from 1 have 3: "fst (isSmartMoneyAddr provider' t t' a s') = Inr True"
    if "toLowerCase a \<in> smartMoneySet s" "isCacheValid t s'" for a
    using that by (simp add: isSmartMoneyAddr_def Let_def)
  from 1 2 3 show ?thesis by blast
qed

lemma refresh_merges_example:
  "\<not> isCacheValid 2000000 afterRefresh1 \<and>
   smartMoneySet afterRefresh1 = {''0xa1''} \<and>
   smartMoneySet afterRefresh2 = {''0xa1'', ''0xb2''} \<and>
   map fst (smartMoneyCache afterRefresh2) = [''0xa1'', ''0xb2''] \<and>
   isCacheValid 2000002 afterRefresh2 \<and>
   fst (isSmartMoneyAddr (\<lambda>_. None) 2000002 2000003 ''0xA1'' afterRefresh2) = Inr True"
  using refresh_merges [of 2000000 afterRefresh1 "\<lambda>_. Some [entryB]" 100 "[entryB]" afterRefresh2 2000001
      "{''0xb2''}" 2000002 "\<lambda>_. None" 2000003]
  by (simp add: afterRefresh1_def afterRefresh2_def getSmartMoneyList_def isSmartMoneyAddr_def
      newService_def isCacheValid_def entryA_def entryB_def Let_def walletOf_def map_values_def
      toLowerCase_def toLowerChar_def qualifying_def insert_commute)

text \<open>
  C2. The claim is that \<^verbatim>\<open>getSmartMoneyList(limit)\<close> returns at most \<open>limit\<close> entries on
  the valid-cache path as on the refresh path. The refresh path hands \<open>limit\<close> to the
  provider; the valid-cache path never reads it. With two wallets cached, a call with
  limit 1 makes no provider call and returns both; and \<^verbatim>\<open>startAutoCopyTrading\<close> with
  \<^verbatim>\<open>topN\<close> 1 ("follow top N from leaderboard") and no explicit address follows both.
\<close>

theorem limit_ignored_on_valid_cache:
  "isCacheValid 2000002 afterRefresh2 \<and>
   map_sum id (map address)
     (fst (getSmartMoneyList (\<lambda>_. Some []) 2000002 2000003 1 afterRefresh2)) = Inr [''0xa1'', ''0xb2''] \<and>
   \<not> length [''0xa1'', ''0xb2''] \<le> (1::nat) \<and>
   leaderboardCalls (snd (getSmartMoneyList (\<lambda>_. Some []) 2000002 2000003 1 afterRefresh2)) =
     leaderboardCalls afterRefresh2 \<and>
   opt_topN topOneOptions = Some 1 \<and>
   map_sum fst (\<lambda>r. sub_targetAddresses (fst r))
     (startAutoCopyTrading (\<lambda>_. Some []) 2000002 2000003 topOneOptions afterRefresh2 newWorld)
     = Inr [''0xa1'', ''0xb2'']"
  by (simp add: topOneOptions_def demoOptions_def startAutoCopyTrading_def uniq_def set_add_def
      resolveConfig_def orDefault_def subscribeSmartMoneyTrades_def newWorld_def cache_defs)

lemma getSmartMoneyList_finish:
  assumes "\<not> isCacheValid now s" and "provider limit = Some entries"
  shows "getSmartMoneyList provider now now' limit s =
     (Inr (fst (finishRefresh entries now' (s\<lparr> leaderboardCalls := leaderboardCalls s + 1 \<rparr>))),
      snd (finishRefresh entries now' (s\<lparr> leaderboardCalls := leaderboardCalls s + 1 \<rparr>)))"
  using assms by (simp add: getSmartMoneyList_def finishRefresh_def Let_def split: prod.splits)

lemma cacheInv_fields:
  "cacheInv (s\<lparr> leaderboardCalls := n \<rparr>) = cacheInv s"
  "cacheInv (s\<lparr> cacheTimestamp := t \<rparr>) = cacheInv s"
  by (simp_all add: cacheInv_def)

text \<open>
  What the code does on each path. On the valid-cache path \<^verbatim>\<open>getSmartMoneyList(limit)\<close>
  makes no provider call, changes nothing and returns the values of the map. On the
  refresh path it calls the provider once and returns, in the provider's order, the
  wallets of exactly the entries of the response whose pnl is not below the minimum, so
  at most as many as the provider returned. On both paths every returned wallet meets
  the minimum PnL, given that the cached ones do, which every call preserves.
\<close>

lemma getSmartMoneyList_returns:
  assumes inv: "cacheInv s"
    and res: "getSmartMoneyList provider now now' limit s = (Inr ws, s')"
  shows "(isCacheValid now s \<longrightarrow> ws = map_values (smartMoneyCache s) \<and> s' = s) \<and>
         (\<not> isCacheValid now s \<longrightarrow>
            (\<exists>entries. provider limit = Some entries \<and>
               ws = map (\<lambda>(i, t). walletOf i t)
                      (filter (\<lambda>(i, t). \<not> entry_pnl t < minPnl s) (enumerate 0 entries)) \<and>
               length ws \<le> length entries \<and>
               leaderboardCalls s' = leaderboardCalls s + 1)) \<and>
         (\<forall>w \<in> set ws. \<not> pnl w < minPnl s) \<and>
         cacheInv s'"
proof (cases "isCacheValid now s")
  case True
  with res have eq: "ws = map_values (smartMoneyCache s)" "s' = s"
    by (auto simp: getSmartMoneyList_def)
  from inv have "\<forall>w \<in> set (map_values (smartMoneyCache s)). \<not> pnl w < minPnl s"
    by (auto simp: cacheInv_def map_values_def list_all_iff)
  with True eq inv show ?thesis by simp
next
  case False
  let ?s1 = "s\<lparr> leaderboardCalls := leaderboardCalls s + 1 \<rparr>"
  from False res obtain entries where p: "provider limit = Some entries"
    by (cases "provider limit") (simp_all add: getSmartMoneyList_def Let_def)
  from res refresh_result [of now s provider limit entries now'] False p
  have ws: "ws = fst (refreshLoop 0 entries [] ?s1)"
    and s': "s' = (snd (refreshLoop 0 entries [] ?s1))\<lparr> cacheTimestamp := now' \<rparr>"
    by simp_all
  have list: "ws = map (\<lambda>(i, t). walletOf i t)
      (filter (\<lambda>(i, t). \<not> entry_pnl t < minPnl s) (enumerate 0 entries))"
    unfolding ws by (simp add: refreshLoop_list)
  have len: "length ws \<le> length entries"
  proof -
    have "length ws \<le> length (enumerate 0 entries)"
      unfolding list length_map by (rule length_filter_le)
    then show ?thesis by simp
  qed
  have calls: "leaderboardCalls s' = leaderboardCalls s + 1"
    unfolding s' by (simp add: refreshLoop_fields)
  have pnls: "\<forall>w \<in> set ws. \<not> pnl w < minPnl s"
    unfolding list by (auto simp: walletOf_def)
  have "cacheInv ?s1" using inv by (simp add: cacheInv_fields)
  then have inv': "cacheInv s'"
    unfolding s' by (simp add: cacheInv_fields refreshLoop_inv)
  from False p list len calls pnls inv' show ?thesis by simp
qed

lemma getSmartMoneyList_returns_example:
  "cacheInv (newService None None) \<and>
   \<not> isCacheValid 1000000 (newService None None) \<and>
   map address (projr (fst (getSmartMoneyList (\<lambda>_. Some [entryA, entryLow, entryB]) 1000000 1000001 3
      (newService None None)))) = [''0xa1'', ''0xb2''] \<and>
   map rank (projr (fst (getSmartMoneyList (\<lambda>_. Some [entryA, entryLow, entryB]) 1000000 1000001 3
      (newService None None)))) = [1, 1] \<and>
   isCacheValid 1000002 (snd (getSmartMoneyList (\<lambda>_. Some [entryA, entryLow, entryB]) 1000000 1000001 3
      (newService None None)))"
  using getSmartMoneyList_returns [of "newService None None" "\<lambda>_. Some [entryA, entryLow, entryB]"
      1000000 1000001 3
      "projr (fst (getSmartMoneyList (\<lambda>_. Some [entryA, entryLow, entryB]) 1000000 1000001 3 (newService None None)))"
      "snd (getSmartMoneyList (\<lambda>_. Some [entryA, entryLow, entryB]) 1000000 1000001 3 (newService None None))"]
  by (simp add: getSmartMoneyList_def cacheInv_def
      newService_def isCacheValid_def entryA_def entryB_def entryLow_def Let_def walletOf_def map_values_def
      toLowerCase_def toLowerChar_def)

subsection \<open>Listeners\<close>

lemmas service_defs = twoListeners_def subscribeSmartMoneyTrades_def getSmartMoneyList_def
  isCacheValid_def newService_def set_add_def set_delete_def optionsFor_def eventFrom_def
  onUpstreamTrade_def handleActivityTrade_def normalizeActivityTrade_def receivers_def
  unsubscribe_def toLowerCase_def toLowerChar_def Let_def

text \<open>
  C3. The claim is that every listener is served by the option set it subscribed with.
  The upstream closure is created once, by the first subscription, and applies the
  options of that call to every event for every listener. With a first listener that
  follows \<open>0xAAA\<close> and a second that follows \<open>0xbbb\<close>: an event of \<open>0xbbb\<close> passes
  the second listener's own options and is delivered to nobody, and an event of
  \<open>0xAaA\<close> fails them and is delivered to both.
\<close>

theorem second_listener_options_ignored:
  "tradeHandlers twoListeners = [UserFn 1, UserFn 2] \<and>
   normalizeActivityTrade (eventFrom ''0xbbb'') (optionsFor ''0xbbb'') twoListeners \<noteq> None \<and>
   onUpstreamTrade (\<lambda>_ _. Returned) (eventFrom ''0xbbb'') twoListeners = [] \<and>
   normalizeActivityTrade (eventFrom ''0xAaA'') (optionsFor ''0xbbb'') twoListeners = None \<and>
   receivers (onUpstreamTrade (\<lambda>_ _. Returned) (eventFrom ''0xAaA'') twoListeners) = [UserFn 1, UserFn 2]"
  by (simp add: service_defs)

text \<open>What the code does: a listener receives a trade exactly when it is registered and
  the event passes the options the upstream closure captured.\<close>

lemma dispatchLoop_delivers:
  "Delivered h t' \<in> set (dispatchLoop call hs t) \<longleftrightarrow> h \<in> set hs \<and> t' = t"
  by (induction hs) (auto split: Outcome.splits)

lemma dispatchLoop_logs:
  "HandlerError h \<in> set (dispatchLoop call hs t) \<longleftrightarrow> h \<in> set hs \<and> call h t = Threw"
  by (induction hs) (auto split: Outcome.splits)

lemma onUpstreamTrade_delivers:
  "Delivered h t \<in> set (onUpstreamTrade call e s) \<longleftrightarrow>
     h \<in> set (tradeHandlers s) \<and>
     (\<exists>opts. activeSubscription s = Some opts \<and> normalizeActivityTrade e opts s = Some t)"
proof (cases "activeSubscription s")
  case None
  then show ?thesis by (simp add: onUpstreamTrade_def)
next
  case (Some opts)
  then show ?thesis
    by (cases "normalizeActivityTrade e opts s")
       (auto simp: onUpstreamTrade_def handleActivityTrade_def dispatchLoop_delivers)
qed

text \<open>
  C8. Whatever the listeners do when called, throwing included: every event of the
  stream that passes the filter is delivered to every registered listener, the first
  event and the later ones alike, and every exception is caught and logged. The
  subscription stays attached: handling an event changes nothing in the service.
\<close>

theorem throwing_listener_isolated:
  assumes "activeSubscription s = Some opts"
    and "e \<in> set es"
    and "normalizeActivityTrade e opts s = Some t"
    and "h \<in> set (tradeHandlers s)"
  shows "Delivered h t \<in> set (streamEvents call es s) \<and>
         (\<forall>h' \<in> set (tradeHandlers s). call h' t = Threw \<longrightarrow> HandlerError h' \<in> set (streamEvents call es s))"
proof -
  from assms(1,3) have log: "onUpstreamTrade call e s = dispatchLoop call (tradeHandlers s) t"
    by (simp add: onUpstreamTrade_def handleActivityTrade_def)
  from assms(4) have "Delivered h t \<in> set (onUpstreamTrade call e s)"
    unfolding log by (simp add: dispatchLoop_delivers)
  moreover have "HandlerError h' \<in> set (onUpstreamTrade call e s)"
    if "h' \<in> set (tradeHandlers s)" "call h' t = Threw" for h'
    unfolding log using that by (simp add: dispatchLoop_logs)
  ultimately show ?thesis
    using assms(2) by (auto simp: streamEvents_def)
qed

theorem throwing_listener_isolated_witness:
  "activeSubscription twoListeners = Some (optionsFor ''0xAAA'') \<and>
   firstThrows (UserFn 1) (the (normalizeActivityTrade (eventFrom ''0xaaa'') (optionsFor ''0xAAA'') twoListeners)) = Threw \<and>
   receivers (streamEvents firstThrows [eventFrom ''0xaaa'', eventFrom ''0xAAA''] twoListeners)
     = [UserFn 1, UserFn 2, UserFn 1, UserFn 2] \<and>
   Delivered (UserFn 2) (the (normalizeActivityTrade (eventFrom ''0xaaa'') (optionsFor ''0xAAA'') twoListeners))
     \<in> set (streamEvents firstThrows [eventFrom ''0xaaa'', eventFrom ''0xAAA''] twoListeners) \<and>
   HandlerError (UserFn 1) \<in> set (streamEvents firstThrows [eventFrom ''0xaaa'', eventFrom ''0xAAA''] twoListeners)"
  using throwing_listener_isolated [of twoListeners "optionsFor ''0xAAA''" "eventFrom ''0xaaa''"
      "[eventFrom ''0xaaa'', eventFrom ''0xAAA'']"
      "the (normalizeActivityTrade (eventFrom ''0xaaa'') (optionsFor ''0xAAA'') twoListeners)"
      "UserFn 2" firstThrows]
  by (simp add: service_defs streamEvents_def firstThrows_def)

subsection \<open>Stopping\<close>

lemma getSmartMoneyList_subscription:
  "tradeHandlers (snd (getSmartMoneyList provider now now' limit s)) = tradeHandlers s \<and>
   activeSubscription (snd (getSmartMoneyList provider now now' limit s)) = activeSubscription s \<and>
   upstreamSubscribes (snd (getSmartMoneyList provider now now' limit s)) = upstreamSubscribes s \<and>
   upstreamUnsubscribes (snd (getSmartMoneyList provider now now' limit s)) = upstreamUnsubscribes s"
proof (cases "isCacheValid now s")
  case True
  then show ?thesis by (simp add: getSmartMoneyList_def)
next
  case False
  show ?thesis
  proof (cases "provider limit")
    case None
    with False show ?thesis by (simp add: getSmartMoneyList_def Let_def)
  next
    case (Some entries)
    from refresh_result [of now s provider limit entries now'] False Some
    show ?thesis by (simp add: refreshLoop_fields)
  qed
qed

lemma finishRefresh_subscription:
  "tradeHandlers (snd (finishRefresh entries now' s)) = tradeHandlers s \<and>
   activeSubscription (snd (finishRefresh entries now' s)) = activeSubscription s \<and>
   upstreamSubscribes (snd (finishRefresh entries now' s)) = upstreamSubscribes s \<and>
   upstreamUnsubscribes (snd (finishRefresh entries now' s)) = upstreamUnsubscribes s"
  by (simp add: finishRefresh_def Let_def refreshLoop_fields split: prod.splits)
     (metis refreshLoop_fields snd_conv)

lemma subscribe_handlers:
  "tradeHandlers (subscribeSmartMoneyTrades now h opts s) = set_add h (tradeHandlers s)"
  by (simp add: subscribeSmartMoneyTrades_def Let_def)

lemma subscribe_leaves_cache:
  "smartMoneyCache (subscribeSmartMoneyTrades now h opts s) = smartMoneyCache s \<and>
   smartMoneySet (subscribeSmartMoneyTrades now h opts s) = smartMoneySet s \<and>
   cacheTimestamp (subscribeSmartMoneyTrades now h opts s) = cacheTimestamp s"
  by (simp add: subscribeSmartMoneyTrades_def Let_def)

lemma detached_unsubscribe: "detached h (unsubscribe h s)"
  by (simp add: detached_def unsubscribe_def set_delete_def Let_def)

lemma unsubscribe_detached: "detached h s \<Longrightarrow> unsubscribe h s = s"
  by (cases "tradeHandlers s = []") (simp_all add: detached_def unsubscribe_def set_delete_def Let_def)

lemma detached_applyOp:
  assumes "detached h s" and "\<not> subscribes h op"
  shows "detached h (applyOp op s)"
proof (cases op)
  case (Subscribe now h' opts)
  with assms have "h' \<noteq> h" by simp
  with assms(1) Subscribe show ?thesis
    by (auto simp: detached_def subscribe_handlers set_add_def)
next
  case (Unsubscribe h')
  with assms(1) show ?thesis
    by (auto simp: detached_def unsubscribe_def set_delete_def Let_def)
next
  case (Refresh provider now now' limit)
  with assms(1) getSmartMoneyList_subscription [of provider now now' limit s]
  show ?thesis by (simp add: detached_def)
next
  case (RefreshDone entries now')
  with assms(1) finishRefresh_subscription [of entries now' s]
  show ?thesis by (simp add: detached_def)
next
  case Disconnect
  then show ?thesis by (simp add: detached_def disconnect_def Let_def)
qed

lemma detached_runOps:
  "detached h s \<Longrightarrow> \<forall>op \<in> set ops. \<not> subscribes h op \<Longrightarrow> detached h (runOps ops s)"
  by (induction ops arbitrary: s) (simp_all add: detached_applyOp)

text \<open>
  C9. A second \<^verbatim>\<open>stop()\<close> on the same subscription changes nothing, whatever client
  calls came after the first (subscriptions of other listeners, their cancellations,
  cache refreshes, a disconnect): the listener set, the upstream subscription and the
  number of upstream \<^verbatim>\<open>unsubscribe\<close> calls stay as they are. The listener of an
  auto-copy session is a closure of its own, which no other call can subscribe.
\<close>

theorem stop_twice:
  assumes "\<forall>op \<in> set ops. \<not> subscribes (stop_onTrade sub) op"
  shows "stop sub (runOps ops (stop sub s)) = runOps ops (stop sub s)"
  unfolding stop_def
  by (rule unsubscribe_detached) (rule detached_runOps [OF detached_unsubscribe assms])

lemma demoStart_eval:
  "demoStart = Inr
     (\<lparr> sub_targetAddresses = [''0xaaa''], sub_startTime = 2, isActive = True, sub_stats = 0,
         stop_onTrade = AutoCopyFn 0, getStats_stats = 0 \<rparr>,
      demoConfig,
      demoService\<lparr> tradeHandlers := [UserFn 1, AutoCopyFn 0], leaderboardCalls := 2 \<rparr>,
      newWorld\<lparr> heap := (heap newWorld)(0 := Some (newStats 2)), nextRef := 1 \<rparr>)"
  by (simp add: demoStart_def startAutoCopyTrading_def demoOptions_def demoService_def newWorld_def
      demoConfig_def resolveConfig_def orDefault_def uniq_def service_defs)

theorem stop_twice_witness:
  "stop_onTrade demoSub = AutoCopyFn 0 \<and>
   tradeHandlers demoStarted = [UserFn 1, AutoCopyFn 0] \<and>
   tradeHandlers (runOps demoOps (stop demoSub demoStarted)) = [UserFn 7] \<and>
   upstreamUnsubscribes (runOps demoOps (stop demoSub demoStarted)) = 0 \<and>
   activeSubscription (runOps demoOps (stop demoSub demoStarted)) = Some (optionsFor ''0xbbb'') \<and>
   stop demoSub (runOps demoOps (stop demoSub demoStarted)) = runOps demoOps (stop demoSub demoStarted)"
  using stop_twice [of demoOps demoSub demoStarted]
  by (simp add: demoSub_def demoStarted_def demoStart_eval demoOps_def stop_def demoService_def
      finishRefresh_def entryA_def walletOf_def service_defs)

subsection \<open>The stats object\<close>

lemma start_result:
  assumes "startAutoCopyTrading provider now now' options s w = Inr (sub, cfg, s', w')"
  shows "sub_stats sub = nextRef w \<and> getStats_stats sub = nextRef w \<and>
         stop_onTrade sub = AutoCopyFn (nextRef w) \<and>
         heap w' = (heap w)(nextRef w := Some (newStats now)) \<and> nextRef w' = Suc (nextRef w)"
  using assms
  by (auto simp: startAutoCopyTrading_def Let_def split: prod.splits sum.splits if_splits)

lemma detected_skipped: "tradesDetected (stats (skipped sess)) = tradesDetected (stats sess)"
  by (simp add: skipped_def)

lemma detected_settle: "tradesDetected (stats (settle cfg t u r sess)) = tradesDetected (stats sess)"
  by (simp add: settle_def failed_def Let_def split: option.splits Outcome.splits)

lemma detected_execute: "tradesDetected (stats (execute cfg t cs cv sess)) = tradesDetected (stats sess)"
  by (simp add: execute_def Let_def detected_skipped detected_settle split: option.splits)

lemma detected_deliver: "tradesDetected (stats (deliver cfg t sess)) = tradesDetected (stats sess) + 1"
  by (simp add: deliver_def Let_def detected_skipped detected_execute split: prod.splits)

lemma settled_success:
  assumes "i < length (pending sess)" and "pending sess ! i = AwaitOrder t u" and "success res"
  shows "tradesExecuted (stats (step cfg (OrderSettled i (Fulfilled res)) sess)) = tradesExecuted (stats sess) + 1 \<and>
         totalUsdcSpent (stats (step cfg (OrderSettled i (Fulfilled res)) sess)) = totalUsdcSpent (stats sess) + u"
  using assms settle_success [of res cfg t u "dropPending i sess"]
  by (simp add: step_def stats_dropPending)

lemma settled_rejected:
  assumes "i < length (pending sess)" and "pending sess ! i = AwaitOrder t u"
  shows "tradesFailed (stats (step cfg (OrderSettled i Rejected) sess)) = tradesFailed (stats sess) + 1"
  using assms by (simp add: step_def failed_def dropPending_def)

text \<open>
  C10. The \<^verbatim>\<open>stats\<close> field of the returned subscription is the address of the very
  object the handler closure counts in and \<^verbatim>\<open>getStats\<close> copies from. What the handler
  does later is seen through the field: a delivered trade adds one to \<open>tradesDetected\<close>
  there, a fulfilled order adds one to \<open>tradesExecuted\<close> and its amount to
  \<open>totalUsdcSpent\<close>, a rejected one adds one to \<open>tradesFailed\<close>. Each \<^verbatim>\<open>getStats()\<close>
  returns a new object, at an address that is neither the live one nor an earlier
  snapshot's; overwriting a snapshot leaves the live object and every later snapshot as
  they were.
\<close>

theorem stats_field_is_live:
  assumes start: "startAutoCopyTrading provider now now' options s w = Inr (sub, cfg, s', w')"
    and live: "heap w1 (sub_stats sub) = Some st"
    and alloc: "sub_stats sub < nextRef w1"
    and snap: "getStats sub w1 = (r, w2)"
    and later: "getStats sub (writeObject r v w2) = (r', w3)"
  shows "stop_onTrade sub = AutoCopyFn (sub_stats sub) \<and>
         getStats_stats sub = sub_stats sub \<and>
         heap w' (sub_stats sub) = Some (newStats now) \<and>
         sub_stats sub < nextRef w' \<and>
         heap (handlerStep cfg (stop_onTrade sub) act w1) (sub_stats sub) =
           Some (stats (step cfg act \<lparr> stats = st, orders = backendOrders w1, pending = suspended w1 \<rparr>)) \<and>
         nextRef (handlerStep cfg (stop_onTrade sub) act w1) = nextRef w1 \<and>
         map_option tradesDetected (heap (handlerStep cfg (stop_onTrade sub) (Deliver t) w1) (sub_stats sub)) =
           Some (tradesDetected st + 1) \<and>
         (i < length (suspended w1) \<and> suspended w1 ! i = AwaitOrder t u \<and> success res \<longrightarrow>
            map_option tradesExecuted
              (heap (handlerStep cfg (stop_onTrade sub) (OrderSettled i (Fulfilled res)) w1) (sub_stats sub)) =
              Some (tradesExecuted st + 1) \<and>
            map_option totalUsdcSpent
              (heap (handlerStep cfg (stop_onTrade sub) (OrderSettled i (Fulfilled res)) w1) (sub_stats sub)) =
              Some (totalUsdcSpent st + u)) \<and>
         (i < length (suspended w1) \<and> suspended w1 ! i = AwaitOrder t u \<longrightarrow>
            map_option tradesFailed
              (heap (handlerStep cfg (stop_onTrade sub) (OrderSettled i Rejected) w1) (sub_stats sub)) =
              Some (tradesFailed st + 1)) \<and>
         r \<noteq> sub_stats sub \<and> heap w2 r = Some st \<and>
         heap (writeObject r v w2) (sub_stats sub) = Some st \<and>
         r' \<noteq> r \<and> r' \<noteq> sub_stats sub \<and> heap w3 r' = Some st \<and> heap w3 (sub_stats sub) = Some st"
proof -
  let ?sess = "\<lparr> stats = st, orders = backendOrders w1, pending = suspended w1 \<rparr>"
  from start_result [OF start]
  have refs: "stop_onTrade sub = AutoCopyFn (sub_stats sub)" "getStats_stats sub = sub_stats sub"
    and init: "heap w' (sub_stats sub) = Some (newStats now)" "sub_stats sub < nextRef w'"
    by simp_all
  have through: "heap (handlerStep cfg (stop_onTrade sub) a w1) (sub_stats sub) = Some (stats (step cfg a ?sess))"
    for a
    using live by (simp add: handlerStep_def refs Let_def)
  have same: "nextRef (handlerStep cfg (stop_onTrade sub) act w1) = nextRef w1"
    using live by (simp add: handlerStep_def refs Let_def)
  have detected: "map_option tradesDetected (heap (handlerStep cfg (stop_onTrade sub) (Deliver t) w1) (sub_stats sub)) =
      Some (tradesDetected st + 1)"
    using detected_deliver [of cfg t ?sess] by (simp add: through step_def)
  have executed: "map_option tradesExecuted
        (heap (handlerStep cfg (stop_onTrade sub) (OrderSettled i (Fulfilled res)) w1) (sub_stats sub)) =
        Some (tradesExecuted st + 1) \<and>
      map_option totalUsdcSpent
        (heap (handlerStep cfg (stop_onTrade sub) (OrderSettled i (Fulfilled res)) w1) (sub_stats sub)) =
        Some (totalUsdcSpent st + u)"
    if "i < length (suspended w1)" "suspended w1 ! i = AwaitOrder t u" "success res"
    using settled_success [of i ?sess t u res cfg] that by (simp add: through)
  have rejected: "map_option tradesFailed
        (heap (handlerStep cfg (stop_onTrade sub) (OrderSettled i Rejected) w1) (sub_stats sub)) =
        Some (tradesFailed st + 1)"
    if "i < length (suspended w1)" "suspended w1 ! i = AwaitOrder t u"
    using settled_rejected [of i ?sess t u cfg] that by (simp add: through)
  from snap have r: "r = nextRef w1"
    and w2: "w2 = w1\<lparr> heap := (heap w1)(nextRef w1 := heap w1 (sub_stats sub)), nextRef := Suc (nextRef w1) \<rparr>"
    by (auto simp: getStats_def refs)
  from later have r': "r' = nextRef (writeObject r v w2)"
    and w3: "w3 = (writeObject r v w2)\<lparr> heap := (heap (writeObject r v w2))
                (nextRef (writeObject r v w2) := heap (writeObject r v w2) (sub_stats sub)),
              nextRef := Suc (nextRef (writeObject r v w2)) \<rparr>"
    by (auto simp: getStats_def refs)
  from alloc r have 1: "r \<noteq> sub_stats sub" by simp
  from live have 2: "heap w2 r = Some st" by (simp add: w2 r)
  from live 1 have 3: "heap (writeObject r v w2) (sub_stats sub) = Some st"
    by (simp add: writeObject_def w2 r)
  have n: "r' = Suc (nextRef w1)" by (simp add: r' writeObject_def w2)
  from n r alloc have 4: "r' \<noteq> r" "r' \<noteq> sub_stats sub" by simp_all
  from 3 have 5: "heap w3 r' = Some st" by (simp add: w3 r')
  from 3 4 have 6: "heap w3 (sub_stats sub) = Some st" by (simp add: w3 r')
  from refs init through [of act] same detected executed rejected 1 2 3 4 5 6 show ?thesis
    by (intro conjI impI) blast+
qed

lemma demoSub_eval:
  "demoSub = \<lparr> sub_targetAddresses = [''0xaaa''], sub_startTime = 2, isActive = True,
      sub_stats = 0, stop_onTrade = AutoCopyFn 0, getStats_stats = 0 \<rparr>"
  by (simp add: demoSub_def demoStart_eval)

lemma demoWorld_eval:
  "demoWorld = newWorld\<lparr> heap := (heap newWorld)(0 := Some (newStats 2)), nextRef := 1 \<rparr>"
  by (simp add: demoWorld_def demoStart_eval)

lemma demoDelivered_eval:
  "demoDelivered =
     \<lparr> heap = (\<lambda>_. None)(0 := Some ((newStats 2)\<lparr> tradesDetected := 1 \<rparr>)),
       nextRef = 1,
       backendOrders = [\<lparr> order_tokenId = ''tok'', order_side = BUY, amount = 5,
                          order_price = 103 / 200, orderType = FOK \<rparr>],
       suspended = [AwaitOrder (demoTrade 100 (1 / 2)) 5] \<rparr>"
  by (simp add: demoDelivered_def demoSub_eval demoWorld_eval handlerStep_def newWorld_def demo_defs)

theorem stats_field_is_live_witness:
  "heap demoWorld (sub_stats demoSub) = Some (newStats 2) \<and>
   heap demoDelivered (sub_stats demoSub) = Some ((newStats 2)\<lparr> tradesDetected := 1 \<rparr>) \<and>
   suspended demoDelivered = [AwaitOrder (demoTrade 100 (1 / 2)) 5] \<and>
   heap (handlerStep demoConfig (stop_onTrade demoSub) (OrderSettled 0 (Fulfilled demoFilled)) demoDelivered)
       (sub_stats demoSub)
     = Some ((newStats 2)\<lparr> tradesDetected := 1, tradesExecuted := 1, totalUsdcSpent := 5 \<rparr>) \<and>
   heap (handlerStep demoConfig (stop_onTrade demoSub) (OrderSettled 0 Rejected) demoDelivered)
       (sub_stats demoSub)
     = Some ((newStats 2)\<lparr> tradesDetected := 1, tradesFailed := 1 \<rparr>) \<and>
   fst (getStats demoSub demoDelivered) = 1 \<and>
   heap (writeObject 1 ((newStats 2)\<lparr> tradesExecuted := 99 \<rparr>) (snd (getStats demoSub demoDelivered)))
       (sub_stats demoSub)
     = Some ((newStats 2)\<lparr> tradesDetected := 1 \<rparr>) \<and>
   heap (writeObject 1 ((newStats 2)\<lparr> tradesExecuted := 99 \<rparr>) (snd (getStats demoSub demoDelivered))) 1
     = Some ((newStats 2)\<lparr> tradesExecuted := 99 \<rparr>) \<and>
   fst (getStats demoSub
         (writeObject 1 ((newStats 2)\<lparr> tradesExecuted := 99 \<rparr>) (snd (getStats demoSub demoDelivered)))) = 2 \<and>
   heap (snd (getStats demoSub
         (writeObject 1 ((newStats 2)\<lparr> tradesExecuted := 99 \<rparr>) (snd (getStats demoSub demoDelivered))))) 2
     = Some ((newStats 2)\<lparr> tradesDetected := 1 \<rparr>)"
proof -
  let ?v = "(newStats 2)\<lparr> tradesExecuted := 99 \<rparr>"
  let ?st = "(newStats 2)\<lparr> tradesDetected := 1 \<rparr>"
  let ?snap = "snd (getStats demoSub demoDelivered)"
  have start: "startAutoCopyTrading (\<lambda>_. None) 2 3 demoOptions demoService newWorld =
      Inr (demoSub, demoConfig, demoStarted, demoWorld)"
    unfolding demoStart_def [symmetric]
    by (simp add: demoStart_eval demoSub_def demoStarted_def demoWorld_def)
  have live0: "heap demoWorld (sub_stats demoSub) = Some (newStats 2)"
    by (simp add: demoSub_eval demoWorld_eval)
  have live: "heap demoDelivered (sub_stats demoSub) = Some ?st"
    by (simp add: demoSub_eval demoDelivered_eval)
  have alloc: "sub_stats demoSub < nextRef demoDelivered"
    by (simp add: demoSub_eval demoDelivered_eval)
  have waiting: "suspended demoDelivered = [AwaitOrder (demoTrade 100 (1 / 2)) 5]"
    by (simp add: demoDelivered_eval)
  have first: "fst (getStats demoSub demoDelivered) = 1"
    by (simp add: getStats_def demoDelivered_eval)
  have snap: "getStats demoSub demoDelivered = (1, ?snap)"
    by (simp add: getStats_def demoDelivered_eval)
  have second: "fst (getStats demoSub (writeObject 1 ?v ?snap)) = 2"
    by (simp add: getStats_def writeObject_def demoDelivered_eval)
  have later: "getStats demoSub (writeObject 1 ?v ?snap) = (2, snd (getStats demoSub (writeObject 1 ?v ?snap)))"
    by (simp add: getStats_def writeObject_def demoDelivered_eval)
  have written: "heap (writeObject 1 ?v ?snap) 1 = Some ?v"
    by (simp add: writeObject_def)
  note live_field =
    stats_field_is_live [OF start live alloc snap later,
      of "OrderSettled 0 (Fulfilled demoFilled)" "demoTrade 100 (1 / 2)" 0 5 demoFilled]
  from live_field
  have filled: "heap (handlerStep demoConfig (stop_onTrade demoSub) (OrderSettled 0 (Fulfilled demoFilled)) demoDelivered)
        (sub_stats demoSub) =
      Some (stats (step demoConfig (OrderSettled 0 (Fulfilled demoFilled))
        \<lparr> stats = ?st, orders = backendOrders demoDelivered, pending = suspended demoDelivered \<rparr>))"
    by blast
  have filled_stats: "stats (step demoConfig (OrderSettled 0 (Fulfilled demoFilled))
        \<lparr> stats = ?st, orders = backendOrders demoDelivered, pending = suspended demoDelivered \<rparr>) =
      (newStats 2)\<lparr> tradesDetected := 1, tradesExecuted := 1, totalUsdcSpent := 5 \<rparr>"
    by (simp add: waiting demoFilled_def demo_defs)
  have refused: "heap (handlerStep demoConfig (stop_onTrade demoSub) (OrderSettled 0 Rejected) demoDelivered)
        (sub_stats demoSub) = Some ((newStats 2)\<lparr> tradesDetected := 1, tradesFailed := 1 \<rparr>)"
    by (simp add: handlerStep_def demoSub_eval demoDelivered_eval demo_defs)
  from live_field
  have kept: "heap (writeObject 1 ?v ?snap) (sub_stats demoSub) = Some ?st"
    by blast
  from live_field
  have copy: "heap (snd (getStats demoSub (writeObject 1 ?v ?snap))) 2 = Some ?st"
    by blast
  from live0 live waiting filled [unfolded filled_stats] refused first kept written second copy
  show ?thesis by (intro conjI)
qed

end
